theory Spec2Isabelle
  imports Complex_Main "HOL-Library.Log_Nat"
begin

section \<open>Python values used by the Discogs sensor\<close>

text \<open>
  A Python \<open>str\<close> is a sequence of Unicode code points, so it is modelled as a list of
  code points (\<open>nat\<close>); an 8-bit \<open>char\<close> could not hold the euro sign of
  \<open>"\<euro>1,792,790.00"\<close>. Dictionary keys and sensor keys are ASCII constants of the source and
  stay Isabelle strings. \<open>ustr\<close> reads an ASCII literal as a Python string.
\<close>

type_synonym ustring = "nat list"

definition ustr :: "string \<Rightarrow> ustring" where
  "ustr s = map of_char s"

text \<open>
  The code points with Unicode property \<open>Nd\<close> (decimal digit) come in runs of ten, the
  digits 0 to 9 in order. \<open>nd_starts\<close> lists the first code point of each run (Unicode 14.0,
  the table of CPython 3.11). Both \<open>\d\<close> of a \<open>str\<close> pattern in \<open>re\<close> and \<open>float()\<close> use this
  property.
\<close>

definition nd_starts :: "nat list" where
  "nd_starts = [48, 1632, 1776, 1984, 2406, 2534, 2662, 2790, 2918, 3046, 3174, 3302, 3430,
     3558, 3664, 3792, 3872, 4160, 4240, 6112, 6160, 6470, 6608, 6784, 6800, 6992, 7088, 7232,
     7248, 42528, 43216, 43264, 43472, 43504, 43600, 44016, 65296, 66720, 68912, 69734, 69872,
     69942, 70096, 70384, 70736, 70864, 71248, 71360, 71472, 71904, 72016, 72784, 73040, 73120,
     92768, 92864, 93008, 120782, 120792, 120802, 120812, 120822, 123200, 123632, 125264,
     130032]"

definition digit_value :: "nat \<Rightarrow> nat option" where
  "digit_value c =
     (case find (\<lambda>s. s \<le> c \<and> c < s + 10) nd_starts of
        None \<Rightarrow> None
      | Some s \<Rightarrow> Some (c - s))"

definition is_decimal :: "nat \<Rightarrow> bool" where
  "is_decimal c = (digit_value c \<noteq> None)"

datatype exn =
    HTTPError            \<comment> \<open>\<open>discogs_client.exceptions.HTTPError\<close>\<close>
  | RequestException     \<comment> \<open>\<open>requests.exceptions.RequestException\<close>\<close>
  | JSONDecodeError      \<comment> \<open>\<open>json.JSONDecodeError\<close>\<close>
  | ValueError
  | KeyError
  | IndexError
  | TypeError
  | AttributeError
  | OtherException       \<comment> \<open>any other subclass of \<open>Exception\<close>\<close>
  | BaseExit             \<comment> \<open>a \<open>BaseException\<close> outside \<open>Exception\<close> (\<open>KeyboardInterrupt\<close>, \<open>SystemExit\<close>)\<close>

section \<open>Python floats\<close>

text \<open>
  A Python \<open>float\<close> is an IEEE 754 binary64 number. The valuation parse only produces
  non-negative numbers and, by overflow, positive infinity: the cleaned string has no sign,
  no exponent and no letters. A finite float is the rational it denotes; every operation
  rounds its exact result to the nearest binary64 number, ties to even
  (\<open>round_double\<close>): 53 significant bits, least exponent \<open>-1074\<close>, and a rounded result
  of \<open>2 ^ 1024\<close> or more is infinity.
\<close>

datatype pyfloat = Finite rat | Infinity

definition ilog2 :: "rat \<Rightarrow> int" where
  \<comment> \<open>for \<open>q > 0\<close>: the \<open>e\<close> with \<open>2 ^ e \<le> q < 2 ^ (e + 1)\<close>\<close>
  "ilog2 q =
     (let (a, b) = quotient_of q; d = bitlen a - bitlen b
      in if 2 powi d \<le> q then d else d - 1)"

definition round_half_even :: "rat \<Rightarrow> int" where
  "round_half_even r =
     (let f = \<lfloor>r\<rfloor>; d = r - of_int f
      in if d < 1 / 2 then f
         else if 1 / 2 < d then f + 1
         else if even f then f else f + 1)"

definition round_double :: "rat \<Rightarrow> pyfloat" where
  \<comment> \<open>for \<open>q \<ge> 0\<close>\<close>
  "round_double q =
     (if q = 0 then Finite 0
      else let p = max (ilog2 q - 52) (- 1074);
               v = of_int (round_half_even (q / 2 powi p)) * 2 powi p
           in if 2 powi 1024 \<le> v then Infinity else Finite v)"

definition representable :: "rat \<Rightarrow> bool" where
  \<comment> \<open>the non-negative finite binary64 numbers\<close>
  "representable q =
     (\<exists>m p. q = of_nat m * 2 powi p \<and> m < 2 ^ 53 \<and> - 1074 \<le> p \<and> p \<le> 971)"

fun float_mul :: "pyfloat \<Rightarrow> rat \<Rightarrow> pyfloat" where
  \<comment> \<open>\<open>x * c\<close> for a finite float constant \<open>c > 0\<close>\<close>
  "float_mul (Finite a) c = round_double (a * c)"
| "float_mul Infinity c = Infinity"

fun float_div :: "pyfloat \<Rightarrow> rat \<Rightarrow> pyfloat" where
  \<comment> \<open>\<open>x / c\<close> for a finite float constant \<open>c > 0\<close>\<close>
  "float_div (Finite a) c = round_double (a / c)"
| "float_div Infinity c = Infinity"

text \<open>
  \<open>float(s)\<close> on a string of decimal digits and \<open>.\<close> only, which is all that the cleaning
  leaves (\<open>numeric_value_str_chars\<close> below): at most one point and at least one digit, else
  \<open>ValueError\<close>. CPython maps every Unicode decimal digit to its ASCII digit and rounds the
  decimal value correctly.
\<close>

definition dot :: nat where "dot = 46"
definition comma :: nat where "comma = 44"

fun digits_value :: "nat \<Rightarrow> ustring \<Rightarrow> nat option" where
  "digits_value acc [] = Some acc"
| "digits_value acc (c # cs) =
     (case digit_value c of
        None \<Rightarrow> None
      | Some d \<Rightarrow> digits_value (10 * acc + d) cs)"

definition decimal_value :: "ustring \<Rightarrow> rat option" where
  "decimal_value s =
     (let ip = takeWhile (\<lambda>c. c \<noteq> dot) s; fp = drop 1 (dropWhile (\<lambda>c. c \<noteq> dot) s)
      in if ip = [] \<and> fp = [] then None
         else case digits_value 0 (ip @ fp) of
                None \<Rightarrow> None
              | Some n \<Rightarrow> Some (of_nat n / 10 ^ length fp))"

definition py_float :: "ustring \<Rightarrow> exn + pyfloat" where
  "py_float s =
     (case decimal_value s of
        None \<Rightarrow> Inl ValueError
      | Some q \<Rightarrow> Inr (round_double q))"

section \<open>The data the sensor works on\<close>

text \<open>
  The raw attributes of a release (\<open>release.data\<close>), as far as the sensor reads them. An
  absent key is \<open>None\<close>; names and titles are strings, as the Discogs API sends them.
\<close>

record format_entry =
  fmt_name :: "ustring option"

record artist_entry =
  artist_name :: "ustring option"

record release_data =
  formats :: "format_entry list option"
  artists :: "artist_entry list option"
  title :: "ustring option"

text \<open>
  A collection folder: its \<open>count\<close> field and its remote, paginated list of releases. An
  entry \<open>Inl e\<close> is a release whose fetch raises \<open>e\<close> (a page request or the lazy load of
  the release).
\<close>

record folder =
  count :: int
  releases :: "(exn + release_data) list"

text \<open>
  The values held in \<open>discogs_data\<close> and in a sensor's state: \<open>None\<close>, an \<open>int\<close>, a
  \<open>float\<close>, a \<open>str\<close>, the list of folders, and any other object (a JSON number with a
  fraction, a list, a dict, ...), of which the code only ever asks the truth value.
\<close>

datatype pyval =
    PNone | PInt int | PFloat pyfloat | PStr ustring | PFolders "folder list" | POther bool

fun truthy :: "pyval \<Rightarrow> bool" where
  "truthy PNone = False"
| "truthy (PInt i) = (i \<noteq> 0)"
| "truthy (PFloat x) = (x \<noteq> Finite 0)"
| "truthy (PStr s) = (s \<noteq> [])"
| "truthy (PFolders fs) = (fs \<noteq> [])"
| "truthy (POther b) = b"

type_synonym dict = "string \<rightharpoonup> pyval"

definition dict_get :: "dict \<Rightarrow> string \<Rightarrow> pyval \<Rightarrow> pyval" where
  \<comment> \<open>\<open>d.get(k, default)\<close>\<close>
  "dict_get d k dflt = (case d k of None \<Rightarrow> dflt | Some v \<Rightarrow> v)"

definition dict_item :: "dict \<Rightarrow> string \<Rightarrow> exn + pyval" where
  \<comment> \<open>\<open>d[k]\<close>\<close>
  "dict_item d k = (case d k of None \<Rightarrow> Inl KeyError | Some v \<Rightarrow> Inr v)"

section \<open>Sensor descriptions\<close>

definition SENSOR_COLLECTION_TYPE :: string where
  "SENSOR_COLLECTION_TYPE = ''collection''"
definition SENSOR_WANTLIST_TYPE :: string where
  "SENSOR_WANTLIST_TYPE = ''wantlist''"
definition SENSOR_RANDOM_RECORD_TYPE :: string where
  "SENSOR_RANDOM_RECORD_TYPE = ''random_record''"
definition SENSOR_COLLECTION_VALUE_MIN_TYPE :: string where
  "SENSOR_COLLECTION_VALUE_MIN_TYPE = ''collection_value_min''"
definition SENSOR_COLLECTION_VALUE_MEDIAN_TYPE :: string where
  "SENSOR_COLLECTION_VALUE_MEDIAN_TYPE = ''collection_value_median''"
definition SENSOR_COLLECTION_VALUE_MAX_TYPE :: string where
  "SENSOR_COLLECTION_VALUE_MAX_TYPE = ''collection_value_max''"
definition SENSOR_VINYL_COUNT_TYPE :: string where
  "SENSOR_VINYL_COUNT_TYPE = ''vinyl_count''"
definition SENSOR_CD_COUNT_TYPE :: string where
  "SENSOR_CD_COUNT_TYPE = ''cd_count''"

definition UNIT_RECORDS :: string where "UNIT_RECORDS = ''records''"

record sensor_description =
  key :: string
  name :: string
  native_unit_of_measurement :: "string option"

definition SENSOR_TYPES :: "sensor_description list" where
  "SENSOR_TYPES =
    [\<lparr>key = SENSOR_COLLECTION_TYPE, name = ''Collection'',
        native_unit_of_measurement = Some UNIT_RECORDS\<rparr>,
     \<lparr>key = SENSOR_WANTLIST_TYPE, name = ''Wantlist'',
        native_unit_of_measurement = Some UNIT_RECORDS\<rparr>,
     \<lparr>key = SENSOR_RANDOM_RECORD_TYPE, name = ''Random Record'',
        native_unit_of_measurement = None\<rparr>,
     \<lparr>key = SENSOR_COLLECTION_VALUE_MIN_TYPE, name = ''Collection Value (Min)'',
        native_unit_of_measurement = None\<rparr>,
     \<lparr>key = SENSOR_COLLECTION_VALUE_MEDIAN_TYPE, name = ''Collection Value (Median)'',
        native_unit_of_measurement = None\<rparr>,
     \<lparr>key = SENSOR_COLLECTION_VALUE_MAX_TYPE, name = ''Collection Value (Max)'',
        native_unit_of_measurement = None\<rparr>,
     \<lparr>key = SENSOR_VINYL_COUNT_TYPE, name = ''Vinyl Records'',
        native_unit_of_measurement = Some UNIT_RECORDS\<rparr>,
     \<lparr>key = SENSOR_CD_COUNT_TYPE, name = ''CDs'',
        native_unit_of_measurement = Some UNIT_RECORDS\<rparr>]"

definition value_keys :: "string list" where
  "value_keys = [SENSOR_COLLECTION_VALUE_MIN_TYPE, SENSOR_COLLECTION_VALUE_MEDIAN_TYPE,
     SENSOR_COLLECTION_VALUE_MAX_TYPE]"

section \<open>The sensor entity\<close>

text \<open>
  \<open>DiscogsSensor\<close>: the description, the entity name, the unit, the cached attributes of the
  last random record (\<open>None\<close> is the empty dict of \<open>__init__\<close>) and the native value. All
  sensors of a platform hold a reference to the one \<open>discogs_data\<close> dict, which no sensor
  writes; the platform record keeps that dict once, beside the entities.
\<close>

record sensor =
  entity_description :: sensor_description
  attr_name :: ustring
  attr_native_unit_of_measurement :: "pyval"
  attrs :: "release_data option"
  attr_native_value :: pyval

record platform =
  discogs_data :: dict
  entities :: "sensor list"

section \<open>Polling a sensor\<close>

definition replace_commas :: "ustring \<Rightarrow> ustring" where
  \<comment> \<open>\<open>value_str.replace(',', '')\<close>\<close>
  "replace_commas s = filter (\<lambda>c. c \<noteq> comma) s"

definition sub_non_numeric :: "ustring \<Rightarrow> ustring" where
  \<comment> \<open>\<open>re.sub(r'[^\d.]', '', s)\<close>\<close>
  "sub_non_numeric s = filter (\<lambda>c. is_decimal c \<or> c = dot) s"

definition numeric_value_str :: "ustring \<Rightarrow> ustring" where
  "numeric_value_str value_str = sub_non_numeric (replace_commas value_str)"

definition parse_value :: "pyval \<Rightarrow> pyval" where
  \<comment> \<open>the value branch of \<open>update\<close>: from the stored object to the native value\<close>
  "parse_value value_str =
     (case value_str of
        PStr s \<Rightarrow>
          if s \<noteq> [] then
            (if numeric_value_str s \<noteq> [] then
               (case py_float (numeric_value_str s) of
                  Inr raw_value \<Rightarrow>
                    (let inflated_value = float_mul raw_value 1000
                     in PFloat (float_div inflated_value 1000))
                | Inl e \<Rightarrow> PNone)
             else PNone)
          else PNone
      | _ \<Rightarrow> PNone)"

text \<open>
  The parse as the specification words it for a reimplementation: the same cleaning, then
  the decimal number itself, with no multiplication and division by 1000.
\<close>

definition parse_value_direct :: "pyval \<Rightarrow> pyval" where
  "parse_value_direct value_str =
     (case value_str of
        PStr s \<Rightarrow>
          if s \<noteq> [] \<and> numeric_value_str s \<noteq> [] then
            (case py_float (numeric_value_str s) of
               Inr raw_value \<Rightarrow> PFloat raw_value
             | Inl e \<Rightarrow> PNone)
          else PNone
      | _ \<Rightarrow> PNone)"

text \<open>
  The decimal numeral of an amount of \<open>n\<close> units and \<open>c\<close> hundredths as the API writes it
  between the currency symbol and the separators: the ASCII digits of \<open>n\<close>, a point and two
  digits for \<open>c\<close>.
\<close>

fun decimal_digits :: "nat \<Rightarrow> ustring" where
  "decimal_digits n =
     (if n < 10 then [48 + n] else decimal_digits (n div 10) @ [48 + n mod 10])"

declare decimal_digits.simps [simp del]

definition amount_numeral :: "nat \<Rightarrow> nat \<Rightarrow> ustring" where
  "amount_numeral n c = decimal_digits n @ [dot, 48 + c div 10, 48 + c mod 10]"

definition key_map :: "string \<Rightarrow> string" where
  \<comment> \<open>the value sensors read the entry of \<open>discogs_data\<close> named like their own key\<close>
  "key_map k =
     (if k = SENSOR_COLLECTION_VALUE_MIN_TYPE then ''collection_value_min''
      else if k = SENSOR_COLLECTION_VALUE_MEDIAN_TYPE then ''collection_value_median''
      else ''collection_value_max'')"

definition lookup_release :: "(exn + release_data) list \<Rightarrow> nat \<Rightarrow> exn + release_data" where
  \<comment> \<open>\<open>collection.releases[i].release.data\<close>\<close>
  "lookup_release rs i = (if i < length rs then rs ! i else Inl IndexError)"

definition record_label :: "release_data \<Rightarrow> ustring" where
  \<comment> \<open>the string \<open>f"{artist_name} - {title}"\<close> of \<open>get_random_record\<close>\<close>
  "record_label d =
     (let artist =
            (case artists d of
               None \<Rightarrow> ustr ''Unknown Artist''
             | Some [] \<Rightarrow> ustr ''Unknown Artist''
             | Some (a # _) \<Rightarrow> (case artist_name a of None \<Rightarrow> ustr ''None'' | Some n \<Rightarrow> n));
          t = (case title d of None \<Rightarrow> ustr ''Unknown Title'' | Some t \<Rightarrow> t)
      in artist @ ustr '' - '' @ t)"

text \<open>
  \<open>random.randrange\<close> is a parameter: \<open>randrange n g\<close> is the index drawn from \<open>range(n)\<close>
  in generator state \<open>g\<close>, with the state after the draw.
\<close>

definition get_random_record ::
  "(nat \<Rightarrow> 'g \<Rightarrow> nat \<times> 'g) \<Rightarrow> dict \<Rightarrow> sensor \<Rightarrow> 'g \<Rightarrow> (exn + pyval) \<times> sensor \<times> 'g"
where
  "get_random_record randrange d s g =
     (case dict_item d ''folders'' of
        Inl e \<Rightarrow> (Inl e, s, g)
      | Inr (PFolders (collection # _)) \<Rightarrow>
          if count collection > 0 then
            (let (random_index, g') = randrange (nat (count collection)) g
             in case lookup_release (releases collection) random_index of
                  Inl e \<Rightarrow> (Inl e, s, g')
                | Inr random_record \<Rightarrow>
                    (Inr (PStr (record_label random_record)),
                     s\<lparr>attrs := Some random_record\<rparr>, g'))
          else (Inr PNone, s, g)
      | Inr (PFolders []) \<Rightarrow> (Inr PNone, s, g)
      | Inr v \<Rightarrow> if truthy v then (Inl TypeError, s, g) else (Inr PNone, s, g))"

definition update ::
  "(nat \<Rightarrow> 'g \<Rightarrow> nat \<times> 'g) \<Rightarrow> dict \<Rightarrow> sensor \<Rightarrow> 'g \<Rightarrow> (exn + sensor) \<times> 'g"
where
  "update randrange d s g =
     (let k = key (entity_description s) in
      if k = SENSOR_COLLECTION_TYPE then
        (case dict_item d ''collection_count'' of
           Inl e \<Rightarrow> (Inl e, g)
         | Inr v \<Rightarrow> (Inr (s\<lparr>attr_native_value := v\<rparr>), g))
      else if k = SENSOR_WANTLIST_TYPE then
        (case dict_item d ''wantlist_count'' of
           Inl e \<Rightarrow> (Inl e, g)
         | Inr v \<Rightarrow> (Inr (s\<lparr>attr_native_value := v\<rparr>), g))
      else if k = SENSOR_VINYL_COUNT_TYPE then
        (Inr (s\<lparr>attr_native_value := dict_get d SENSOR_VINYL_COUNT_TYPE (PInt 0)\<rparr>), g)
      else if k = SENSOR_CD_COUNT_TYPE then
        (Inr (s\<lparr>attr_native_value := dict_get d SENSOR_CD_COUNT_TYPE (PInt 0)\<rparr>), g)
      else if k \<in> set value_keys then
        (let data_key = key_map k;
             value_str = dict_get d data_key PNone
         in (Inr (s\<lparr>attr_native_value := parse_value value_str\<rparr>), g))
      else
        (case get_random_record randrange d s g of
           (Inl e, s', g') \<Rightarrow> (Inl e, g')
         | (Inr v, s', g') \<Rightarrow> (Inr (s'\<lparr>attr_native_value := v\<rparr>), g')))"

text \<open>
  The host polls one entity of the platform: entity \<open>i\<close> runs its \<open>update\<close> against the
  shared \<open>discogs_data\<close>. An exception of \<open>update\<close> goes to the host, the platform is as
  it was.
\<close>

definition poll ::
  "(nat \<Rightarrow> 'g \<Rightarrow> nat \<times> 'g) \<Rightarrow> nat \<Rightarrow> platform \<Rightarrow> 'g \<Rightarrow> (exn + platform) \<times> 'g"
where
  "poll randrange i p g =
     (if i < length (entities p) then
        (case update randrange (discogs_data p) (entities p ! i) g of
           (Inl e, g') \<Rightarrow> (Inl e, g')
         | (Inr s', g') \<Rightarrow> (Inr (p\<lparr>entities := (entities p)[i := s']\<rparr>), g'))
      else (Inl IndexError, g))"

section \<open>Setting up the platform\<close>

text \<open>
  A JSON document as \<open>response.json()\<close> returns it, and the \<open>data\<close> of the identity: a dict
  (keys in order, the first entry of a key counts) or any other object with its truth value.
\<close>

datatype pyjson = JDict "(ustring \<times> pyval) list" | JOther bool

text \<open>
  The identity object of \<open>discogs_client\<close>. Its attributes load lazily from the API, so
  each read either yields a value or raises; \<open>Inl AttributeError\<close> is an attribute the object
  does not have.
\<close>

record identity =
  id_name :: "exn + ustring"
  username :: "exn + ustring"
  collection_folders :: "exn + folder list"
  num_collection :: "exn + int"
  num_wantlist :: "exn + int"
  curr_abbr :: "exn + pyval"
  data :: "exn + pyjson"

text \<open>
  What the outside world answers during setup: the identity request of the client, and the
  direct request to \<open>/collection/value\<close> (\<open>requests.get\<close>, \<open>raise_for_status\<close> and
  \<open>response.json()\<close> together; an HTTP error status of \<open>requests\<close> is a
  \<open>RequestException\<close>).
\<close>

record env =
  identity_call :: "exn + identity"
  value_call :: "exn + pyjson"

record config =
  conf_token :: ustring
  conf_name :: ustring
  monitored_conditions :: "string list"

definition initial_data :: dict where
  "initial_data =
     [''user'' \<mapsto> PStr (ustr ''Unknown''),
      ''folders'' \<mapsto> PFolders [],
      ''collection_count'' \<mapsto> PInt 0,
      ''wantlist_count'' \<mapsto> PInt 0,
      ''collection_value_min'' \<mapsto> PStr (ustr ''0.00''),
      ''collection_value_median'' \<mapsto> PStr (ustr ''0.00''),
      ''collection_value_max'' \<mapsto> PStr (ustr ''0.00''),
      ''currency_symbol'' \<mapsto> PStr (ustr ''$''),
      SENSOR_VINYL_COUNT_TYPE \<mapsto> PInt 0,
      SENSOR_CD_COUNT_TYPE \<mapsto> PInt 0]"

definition data_curr_abbr :: "identity \<Rightarrow> pyval \<Rightarrow> exn + pyval" where
  \<comment> \<open>the \<open>elif\<close> and \<open>else\<close> of the currency resolution\<close>
  "data_curr_abbr idn currency_symbol =
     (case data idn of
        Inl e \<Rightarrow> if e = AttributeError then Inr currency_symbol else Inl e
      | Inr (JOther b) \<Rightarrow> Inr currency_symbol
      | Inr (JDict kv) \<Rightarrow>
          (case map_of kv (ustr ''curr_abbr'') of
             None \<Rightarrow> Inr currency_symbol
           | Some v \<Rightarrow> if truthy v then Inr v else Inr currency_symbol))"

definition resolve_currency :: "identity \<Rightarrow> pyval \<Rightarrow> exn + pyval" where
  "resolve_currency idn currency_symbol =
     (case curr_abbr idn of
        Inl e \<Rightarrow> if e = AttributeError then data_curr_abbr idn currency_symbol else Inl e
      | Inr v \<Rightarrow> if truthy v then Inr v else data_curr_abbr idn currency_symbol)"

text \<open>
  The resolution order as the specification words it, by presence alone: the attribute when
  the identity has it, else the key of the raw data map when the map has it, else \<open>$\<close>.
\<close>

definition currency_by_presence :: "identity \<Rightarrow> pyval" where
  "currency_by_presence idn =
     (case curr_abbr idn of
        Inr v \<Rightarrow> v
      | Inl e \<Rightarrow>
          (case data idn of
             Inr (JDict kv) \<Rightarrow>
               (case map_of kv (ustr ''curr_abbr'') of
                  Some v \<Rightarrow> v
                | None \<Rightarrow> PStr (ustr ''$''))
           | _ \<Rightarrow> PStr (ustr ''$'')))"

text \<open>
  The same order where a source only counts when its value is present and true (for a
  string: not empty).
\<close>

definition attribute_value :: "exn + pyval \<Rightarrow> pyval option" where
  "attribute_value r = (case r of Inr v \<Rightarrow> if truthy v then Some v else None | Inl e \<Rightarrow> None)"

definition data_value :: "exn + pyjson \<Rightarrow> pyval option" where
  "data_value r =
     (case r of
        Inr (JDict kv) \<Rightarrow>
          (case map_of kv (ustr ''curr_abbr'') of
             Some v \<Rightarrow> if truthy v then Some v else None
           | None \<Rightarrow> None)
      | _ \<Rightarrow> None)"

definition currency_by_priority :: "identity \<Rightarrow> pyval" where
  "currency_by_priority idn =
     (case attribute_value (curr_abbr idn) of
        Some v \<Rightarrow> v
      | None \<Rightarrow>
          (case data_value (data idn) of
             Some v \<Rightarrow> v
           | None \<Rightarrow> PStr (ustr ''$'')))"

definition populate_identity :: "identity \<Rightarrow> dict \<Rightarrow> dict \<times> exn option" where
  \<comment> \<open>step 1 of the \<open>try\<close> block: the dict as it is when the step ends or raises\<close>
  "populate_identity idn d =
     (case id_name idn of Inl e \<Rightarrow> (d, Some e) | Inr nm \<Rightarrow>
      case username idn of Inl e \<Rightarrow> (d, Some e) | Inr un \<Rightarrow>
      let d1 = d(''user'' \<mapsto> PStr nm) in
      case collection_folders idn of Inl e \<Rightarrow> (d1, Some e) | Inr fs \<Rightarrow>
      let d2 = d1(''folders'' \<mapsto> PFolders fs) in
      case num_collection idn of Inl e \<Rightarrow> (d2, Some e) | Inr nc \<Rightarrow>
      let d3 = d2(''collection_count'' \<mapsto> PInt nc) in
      case num_wantlist idn of Inl e \<Rightarrow> (d3, Some e) | Inr nw \<Rightarrow>
      let d4 = d3(''wantlist_count'' \<mapsto> PInt nw) in
      case resolve_currency idn (PStr (ustr ''$'')) of Inl e \<Rightarrow> (d4, Some e) | Inr cur \<Rightarrow>
      (d4(''currency_symbol'' \<mapsto> cur), None))"

definition json_get :: "(ustring \<times> pyval) list \<Rightarrow> string \<Rightarrow> pyval \<Rightarrow> pyval" where
  "json_get kv k dflt = (case map_of kv (ustr k) of None \<Rightarrow> dflt | Some v \<Rightarrow> v)"

definition value_strings :: "pyjson \<Rightarrow> pyval \<times> pyval \<times> pyval" where
  "value_strings collection_value_raw =
     (case collection_value_raw of
        JDict kv \<Rightarrow>
          if kv \<noteq> [] then
            (json_get kv ''minimum'' (PStr (ustr ''0.00'')),
             json_get kv ''median'' (PStr (ustr ''0.00'')),
             json_get kv ''maximum'' (PStr (ustr ''0.00'')))
          else (PStr (ustr ''0.00''), PStr (ustr ''0.00''), PStr (ustr ''0.00''))
      | JOther b \<Rightarrow> (PStr (ustr ''0.00''), PStr (ustr ''0.00''), PStr (ustr ''0.00'')))"

definition fetch_collection_value :: "env \<Rightarrow> exn + pyval \<times> pyval \<times> pyval" where
  \<comment> \<open>the inner \<open>try\<close>: the three strings, or the exception it does not catch\<close>
  "fetch_collection_value ev =
     (case value_call ev of
        Inr raw \<Rightarrow> Inr (value_strings raw)
      | Inl e \<Rightarrow>
          if e = RequestException \<or> e = JSONDecodeError
          then Inr (PStr (ustr ''0.00''), PStr (ustr ''0.00''), PStr (ustr ''0.00''))
          else Inl e)"

definition fetch_initial_data :: "env \<Rightarrow> dict \<Rightarrow> dict \<times> identity option \<times> exn option" where
  \<comment> \<open>the body of the first \<open>try\<close>: the dict, \<open>discogs_identity\<close> and the exception raised\<close>
  "fetch_initial_data ev d =
     (case identity_call ev of
        Inl e \<Rightarrow> (d, None, Some e)
      | Inr idn \<Rightarrow>
          (case populate_identity idn d of
             (d', Some e) \<Rightarrow> (d', Some idn, Some e)
           | (d', None) \<Rightarrow>
               (case fetch_collection_value ev of
                  Inl e \<Rightarrow> (d', Some idn, Some e)
                | Inr (mn, md, mx) \<Rightarrow>
                    (d'(''collection_value_min'' \<mapsto> mn,
                        ''collection_value_median'' \<mapsto> md,
                        ''collection_value_max'' \<mapsto> mx), Some idn, None))))"

text \<open>
  \<open>str.lower()\<close>, code point by code point. Only U+0130 and U+212A have a lower case that
  contains ASCII; the lower case of any other non-ASCII letter is non-ASCII and the letter
  is kept as it is here, which does not change a comparison with an ASCII literal.
\<close>

definition lower_cp :: "nat \<Rightarrow> ustring" where
  "lower_cp c =
     (if 65 \<le> c \<and> c \<le> 90 then [c + 32]
      else if c = 304 then [105, 775]
      else if c = 8490 then [107]
      else [c])"

definition py_lower :: "ustring \<Rightarrow> ustring" where
  "py_lower s = concat (map lower_cp s)"

fun count_formats :: "(exn + release_data) list \<Rightarrow> int \<Rightarrow> int \<Rightarrow> exn + int \<times> int" where
  "count_formats [] current_vinyl_count current_cd_count =
     Inr (current_vinyl_count, current_cd_count)"
| "count_formats (Inl e # rest) current_vinyl_count current_cd_count = Inl e"
| "count_formats (Inr release_data # rest) current_vinyl_count current_cd_count =
     (case (case formats release_data of None \<Rightarrow> [] | Some fs \<Rightarrow> fs) of
        [] \<Rightarrow> count_formats rest current_vinyl_count current_cd_count
      | f # _ \<Rightarrow>
          (case fmt_name f of
             None \<Rightarrow> count_formats rest current_vinyl_count current_cd_count
           | Some primary_format \<Rightarrow>
               if primary_format = [] then
                 count_formats rest current_vinyl_count current_cd_count
               else if py_lower primary_format = ustr ''vinyl'' then
                 count_formats rest (current_vinyl_count + 1) current_cd_count
               else if py_lower primary_format = ustr ''cd'' then
                 count_formats rest current_vinyl_count (current_cd_count + 1)
               else count_formats rest current_vinyl_count current_cd_count))"

text \<open>
  The classification as the specification words it: an item counts for a format word when
  the name of the first entry of its format list matches the word without regard to case,
  that is, letter by letter each code point is the word's lower-case ASCII letter or its
  capital.
\<close>

definition same_letter :: "nat \<Rightarrow> nat \<Rightarrow> bool" where
  "same_letter a b = (a = b \<or> (65 \<le> a \<and> a \<le> 90 \<and> a + 32 = b))"

definition matches_ci :: "ustring \<Rightarrow> ustring \<Rightarrow> bool" where
  "matches_ci s w = list_all2 same_letter s w"

definition first_format_matches :: "string \<Rightarrow> release_data \<Rightarrow> bool" where
  "first_format_matches w release_data =
     (case formats release_data of
        Some (f # _) \<Rightarrow> (case fmt_name f of None \<Rightarrow> False | Some n \<Rightarrow> matches_ci n (ustr w))
      | _ \<Rightarrow> False)"

definition count_collection :: "dict \<Rightarrow> exn + dict" where
  \<comment> \<open>the body of the second \<open>try\<close>\<close>
  "count_collection d =
     (case dict_item d ''folders'' of
        Inl e \<Rightarrow> Inl e
      | Inr (PFolders (main_folder # _)) \<Rightarrow>
          (case count_formats (releases main_folder) 0 0 of
             Inl e \<Rightarrow> Inl e
           | Inr (current_vinyl_count, current_cd_count) \<Rightarrow>
               Inr (d(SENSOR_VINYL_COUNT_TYPE \<mapsto> PInt current_vinyl_count,
                      SENSOR_CD_COUNT_TYPE \<mapsto> PInt current_cd_count)))
      | Inr (PFolders []) \<Rightarrow> Inr d
      | Inr v \<Rightarrow> if truthy v then Inl TypeError else Inr d)"

definition format_counts_step :: "identity option \<Rightarrow> dict \<Rightarrow> exn + dict" where
  \<comment> \<open>step 3 with its handlers: \<open>Inl\<close> is an exception that leaves \<open>setup_platform\<close>\<close>
  "format_counts_step discogs_identity d =
     (if discogs_identity = None then Inr d
      else case dict_item d ''collection_count'' of
             Inl e \<Rightarrow> Inl e
           | Inr (PInt n) \<Rightarrow>
               if n > 0 then
                 (case count_collection d of
                    Inr d' \<Rightarrow> Inr d'
                  | Inl e \<Rightarrow> if e = BaseExit then Inl e else Inr d)
               else Inr d
           | Inr v \<Rightarrow> Inl TypeError)"

definition new_sensor :: "dict \<Rightarrow> ustring \<Rightarrow> sensor_description \<Rightarrow> exn + sensor" where
  \<comment> \<open>\<open>DiscogsSensor.__init__\<close>\<close>
  "new_sensor d nm description =
     (let s = \<lparr>entity_description = description,
                attr_name = nm @ ustr '' '' @ ustr (name description),
                attr_native_unit_of_measurement =
                  (case native_unit_of_measurement description of
                     None \<Rightarrow> PNone
                   | Some u \<Rightarrow> PStr (ustr u)),
                attrs = None,
                attr_native_value = PNone\<rparr>
      in if key description \<in> set value_keys then
           (case dict_item d ''currency_symbol'' of
              Inl e \<Rightarrow> Inl e
            | Inr u \<Rightarrow> Inr (s\<lparr>attr_native_unit_of_measurement := u\<rparr>))
         else Inr s)"

fun new_sensors :: "dict \<Rightarrow> ustring \<Rightarrow> sensor_description list \<Rightarrow> exn + sensor list" where
  "new_sensors d nm [] = Inr []"
| "new_sensors d nm (description # rest) =
     (case new_sensor d nm description of
        Inl e \<Rightarrow> Inl e
      | Inr s \<Rightarrow> (case new_sensors d nm rest of Inl e \<Rightarrow> Inl e | Inr ss \<Rightarrow> Inr (s # ss)))"

text \<open>
  How \<open>setup_platform\<close> ends: it returns early without calling \<open>add_entities\<close>, an
  exception leaves it, or it hands the entities (with the dict they share) to
  \<open>add_entities\<close>.
\<close>

datatype setup_result = Aborted | Escaped exn | Added platform

definition setup_platform :: "env \<Rightarrow> config \<Rightarrow> setup_result" where
  "setup_platform ev cfg =
     (case fetch_initial_data ev initial_data of
        (d, discogs_identity, raised) \<Rightarrow>
          if raised = Some HTTPError then Aborted
          else if raised = Some BaseExit then Escaped BaseExit
          else
            (case format_counts_step discogs_identity d of
               Inl e \<Rightarrow> Escaped e
             | Inr d' \<Rightarrow>
                 (case new_sensors d' (conf_name cfg)
                         (filter (\<lambda>description. key description \<in> set (monitored_conditions cfg))
                            SENSOR_TYPES) of
                    Inl e \<Rightarrow> Escaped e
                  | Inr sensors \<Rightarrow> Added \<lparr>discogs_data = d', entities = sensors\<rparr>)))"

section \<open>Example inputs\<close>

definition value_sensor :: "string \<Rightarrow> string \<Rightarrow> sensor" where
  \<comment> \<open>a value sensor as \<open>new_sensor\<close> builds it for the name \<open>Discogs\<close> and the unit \<open>\<euro>\<close>\<close>
  "value_sensor k nm =
     \<lparr>entity_description = \<lparr>key = k, name = nm, native_unit_of_measurement = None\<rparr>,
      attr_name = ustr ''Discogs '' @ ustr nm,
      attr_native_unit_of_measurement = PStr [8364],
      attrs = None,
      attr_native_value = PNone\<rparr>"

definition release_with_format :: "string \<Rightarrow> release_data" where
  \<comment> \<open>a release whose only format entry has the given name\<close>
  "release_with_format nm =
     \<lparr>formats = Some [\<lparr>fmt_name = Some (ustr nm)\<rparr>], artists = None, title = None\<rparr>"

definition example_folder :: folder where
  "example_folder =
     \<lparr>count = 4,
      releases = map (\<lambda>nm. Inr (release_with_format nm)) [''Vinyl'', ''CD'', ''vinyl'', ''Cassette'']\<rparr>"

definition example_identity :: identity where
  "example_identity =
     \<lparr>id_name = Inr (ustr ''Andreas''),
      username = Inr (ustr ''andreasc1''),
      collection_folders = Inr [example_folder],
      num_collection = Inr 4,
      num_wantlist = Inr 2,
      curr_abbr = Inl AttributeError,
      data = Inr (JDict [(ustr ''curr_abbr'', PStr (ustr ''EUR''))])\<rparr>"

definition example_env :: env where
  "example_env =
     \<lparr>identity_call = Inr example_identity,
      value_call = Inr (JDict [(ustr ''minimum'', PStr (8364 # ustr ''1,024.50'')),
                               (ustr ''median'', PStr (8364 # ustr ''2,048.00'')),
                               (ustr ''maximum'', PStr (8364 # ustr ''1,792,790.00''))])\<rparr>"

definition example_config :: config where
  "example_config =
     \<lparr>conf_token = ustr ''token'', conf_name = ustr ''Discogs'',
      monitored_conditions = [SENSOR_RANDOM_RECORD_TYPE, SENSOR_COLLECTION_VALUE_MIN_TYPE]\<rparr>"

definition random_sensor :: sensor where
  \<comment> \<open>the random record sensor as \<open>new_sensor\<close> builds it for the name \<open>Discogs\<close>\<close>
  "random_sensor =
     \<lparr>entity_description = \<lparr>key = SENSOR_RANDOM_RECORD_TYPE, name = ''Random Record'',
          native_unit_of_measurement = None\<rparr>,
      attr_name = ustr ''Discogs Random Record'',
      attr_native_unit_of_measurement = PNone,
      attrs = None,
      attr_native_value = PNone\<rparr>"

definition dash_platform :: platform where
  \<comment> \<open>minimum: an em dash (U+2014) alone, median: \<open>"\<euro>5.00"\<close>\<close>
  "dash_platform =
     \<lparr>discogs_data = initial_data(''collection_value_min'' \<mapsto> PStr [8212],
                                   ''collection_value_median'' \<mapsto> PStr (8364 # ustr ''5.00'')),
      entities = [value_sensor SENSOR_COLLECTION_VALUE_MIN_TYPE ''Collection Value (Min)'',
                  value_sensor SENSOR_COLLECTION_VALUE_MEDIAN_TYPE ''Collection Value (Median)'']\<rparr>"

section \<open>Rounding to binary64\<close>

lemma powi_mono2: "a \<le> b \<Longrightarrow> (2::rat) powi a \<le> 2 powi b"
  by (simp add: power_int_increasing)

lemma powi_less_cancel2: "(2::rat) powi a < 2 powi b \<Longrightarrow> a < b"
  by (meson linorder_not_le powi_mono2) 

lemma powi_nat2: "0 \<le> n \<Longrightarrow> (2::rat) powi n = of_int (2 ^ nat n)"
  by (simp add: power_int_def)

lemma powi_pos2 [simp]: "0 < (2::rat) powi n"
  by (simp add: zero_less_power_int)

lemma powi_add2: "(2::rat) powi (a + b) = 2 powi a * 2 powi b"
  by (simp add: power_int_add)

lemma ilog2_bounds:
  assumes "0 < q"
  shows "2 powi ilog2 q \<le> q \<and> q < 2 powi (ilog2 q + 1)"
proof -
  obtain a b where ab: "quotient_of q = (a, b)" by (cases "quotient_of q")
  then have b: "0 < b" and q: "q = of_int a / of_int b"
    using quotient_of_denom_pos quotient_of_div by auto
  from assms q b have a: "0 < a"
    by (simp add: zero_less_divide_iff)
  define la lb where "la = bitlen a" and "lb = bitlen b"
  have la: "2 ^ nat (la - 1) \<le> a" "a < 2 ^ nat la" and lb: "2 ^ nat (lb - 1) \<le> b" "b < 2 ^ nat lb"
    using bitlen_bounds[OF a] bitlen_bounds[OF b] by (simp_all add: la_def lb_def)
  have la1: "1 \<le> la" and lb1: "1 \<le> lb"
    using a b by (auto simp: la_def lb_def bitlen_alt_def)
  have A1: "(2::rat) powi (la - 1) \<le> of_int a" 
    using la(1) la1 by (simp only: powi_nat2 of_int_le_iff)
  have A2: "of_int a < (2::rat) powi la" 
    using la(2) la1 by (simp only: powi_nat2 of_int_less_iff)
  have B1: "(2::rat) powi (lb - 1) \<le> of_int b"
    using lb(1) lb1 by (simp only: powi_nat2 of_int_le_iff)
  have B2: "of_int b < (2::rat) powi lb"
    using lb(2) lb1 by (simp only: powi_nat2 of_int_less_iff)
  have bq: "(0::rat) < of_int b" using b by simp
  have "q * of_int b < 2 powi la" using A2 q bq by simp
  also have "\<dots> = 2 powi (la - lb + 1) * 2 powi (lb - 1)"
    by (simp flip: power_int_add)
  also have "\<dots> \<le> 2 powi (la - lb + 1) * of_int b"
    using B1 by (simp add: mult_left_mono)
  finally have up: "q < 2 powi (la - lb + 1)"
    using bq by simp
  have "(2::rat) powi (la - lb - 1) * of_int b \<le> 2 powi (la - lb - 1) * 2 powi lb"
    using B2 by (simp add: mult_left_mono)
  also have "\<dots> = 2 powi (la - 1)"
    by (simp flip: power_int_add)
  also have "\<dots> \<le> q * of_int b" using A1 q bq by simp
  finally have lo: "2 powi (la - lb - 1) \<le> q"
    using bq by simp
  show ?thesis
    using up lo ab by (auto simp: ilog2_def Let_def la_def lb_def not_le)
qed

lemma ilog2_unique:
  assumes "0 < q" "2 powi e \<le> q" "q < 2 powi (e + 1)"
  shows "ilog2 q = e"
proof -
  have "2 powi e < (2::rat) powi (ilog2 q + 1)" "2 powi ilog2 q < (2::rat) powi (e + 1)"
    using ilog2_bounds[OF assms(1)] assms(2,3) by auto
  then have "e < ilog2 q + 1" "ilog2 q < e + 1"
    by (auto dest: powi_less_cancel2)
  then show ?thesis by simp
qed

lemma round_half_even_of_int [simp]: "round_half_even (of_int n) = n"
  by (simp add: round_half_even_def)

lemma round_half_even_eq:
  assumes "of_int n - 1 / 2 < r" "r < of_int n + 1 / 2"
  shows "round_half_even r = n"
proof (cases "of_int n \<le> r")
  case True
  then have "\<lfloor>r\<rfloor> = n" using assms by (intro floor_unique) auto
  then show ?thesis using assms by (simp add: round_half_even_def)
next
  case False
  then have "\<lfloor>r\<rfloor> = n - 1" using assms by (intro floor_unique) auto
  then show ?thesis using assms by (simp add: round_half_even_def)
qed

lemma round_double_eq:
  assumes q: "0 < q"
    and e: "2 powi e \<le> q" "q < 2 powi (e + 1)"
    and p: "p = max (e - 52) (- 1074)"
    and n: "of_int n - 1 / 2 < q / 2 powi p" "q / 2 powi p < of_int n + 1 / 2"
    and fin: "of_int n * 2 powi p < (2::rat) powi 1024"
  shows "round_double q = Finite (of_int n * 2 powi p)"
proof -
  have "ilog2 q = e" using q e by (rule ilog2_unique)
  moreover have "round_half_even (q / 2 powi p) = n" using n by (rule round_half_even_eq)
  ultimately show ?thesis
    using q fin p by (simp add: round_double_def Let_def not_le)
qed

lemma round_double_representable:
  assumes "representable q"
  shows "round_double q = Finite q"
proof (cases "q = 0")
  case True
  then show ?thesis by (simp add: round_double_def)
next
  case False
  from assms obtain m p' where m: "q = of_nat m * 2 powi p'" "m < 2 ^ 53"
    and p': "- 1074 \<le> p'" "p' \<le> 971"
    by (auto simp: representable_def)
  from False m(1) have q: "0 < q" by (cases "m = 0") simp_all
  define e where "e = ilog2 q"
  define p where "p = max (e - 52) (- 1074)"
  have eb: "2 powi e \<le> q" "q < 2 powi (e + 1)"
    using ilog2_bounds[OF q] by (simp_all add: e_def)
  have mlt: "(of_nat m :: rat) < 2 powi 53"
  proof -
    have "(of_nat m :: rat) < of_nat (2 ^ 53)" using m(2) by (simp only: of_nat_less_iff)
    then show ?thesis by simp
  qed
  have pp: "p \<le> p'"
  proof (rule ccontr)
    assume "\<not> p \<le> p'"
    then have lt: "p' + 53 \<le> e" using p'(1) by (simp add: p_def max_def split: if_splits)
    have "q < 2 powi 53 * 2 powi p'"
      using mlt by (simp add: m(1))
    also have "\<dots> = 2 powi (p' + 53)" by (simp only: powi_add2 mult.commute)
    also have "\<dots> \<le> 2 powi e" using lt by (rule powi_mono2)
    finally show False using eb(1) by simp
  qed
  have "q / 2 powi p = of_nat m * 2 powi (p' - p)"
    by (simp add: m(1) power_int_diff)
  also have "\<dots> = of_int (int m * 2 ^ nat (p' - p))"
    using pp by (simp add: powi_nat2)
  finally have r: "round_half_even (q / 2 powi p) = int m * 2 ^ nat (p' - p)"
    by (simp only: round_half_even_of_int)
  have restore: "of_int (int m * 2 ^ nat (p' - p)) * 2 powi p = q"
  proof -
    have "of_int (int m * 2 ^ nat (p' - p)) * (2::rat) powi p = of_nat m * (2 powi (p' - p) * 2 powi p)"
      using pp by (simp add: powi_nat2)
    also have "\<dots> = of_nat m * 2 powi p'" by (simp flip: power_int_add)
    finally show ?thesis by (simp add: m(1))
  qed
  have "q < 2 powi 53 * 2 powi p'" using mlt by (simp add: m(1))
  also have "\<dots> = 2 powi (p' + 53)" by (simp only: powi_add2 mult.commute)
  also have "\<dots> \<le> 2 powi 1024" using p'(2) by (intro powi_mono2) simp
  finally have fin: "q < 2 powi 1024" .
  show ?thesis
    using False fin r restore
    by (simp add: round_double_def Let_def not_le flip: e_def p_def)
qed

lemma round_half_even_le:
  assumes "r \<le> of_int k"
  shows "round_half_even r \<le> k"
proof -
  have "\<lfloor>r\<rfloor> \<le> k" using assms by (simp add: floor_le_iff)
  moreover have "r - of_int \<lfloor>r\<rfloor> \<noteq> 0 \<Longrightarrow> \<lfloor>r\<rfloor> < k"
    using assms by (metis diff_self floor_less_iff less_le of_int_floor_cancel of_int_floor_le order.trans floor_of_int)
  ultimately show ?thesis
    by (auto simp: round_half_even_def Let_def)
qed

lemma round_half_even_ge:
  assumes "of_int k \<le> r"
  shows "k \<le> round_half_even r"
proof -
  have "k \<le> \<lfloor>r\<rfloor>" using assms by (simp add: le_floor_iff)
  then show ?thesis
    by (auto simp: round_half_even_def Let_def)
qed

lemma representable_0: "representable 0"
  unfolding representable_def by (rule exI[of _ 0], rule exI[of _ 0]) simp

lemma round_double_representable_result:
  assumes "0 \<le> q" "round_double q = Finite v"
  shows "representable v"
proof (cases "q = 0")
  case True
  with assms show ?thesis by (simp add: round_double_def representable_0)
next
  case False
  with assms have q: "0 < q" by simp
  define e where "e = ilog2 q"
  define p where "p = max (e - 52) (- 1074)"
  define n where "n = round_half_even (q / 2 powi p)"
  have eb: "2 powi e \<le> q" "q < 2 powi (e + 1)"
    using ilog2_bounds[OF q] by (simp_all add: e_def)
  from assms(2) False have v: "v = of_int n * 2 powi p" and fin: "v < 2 powi 1024"
    by (auto simp: round_double_def Let_def e_def p_def n_def split: if_splits)
  have p1: "- 1074 \<le> p" and p2: "e - 52 \<le> p" by (simp_all add: p_def)
  have "0 \<le> q / 2 powi p" using q by simp
  then have n0: "0 \<le> n" unfolding n_def by (intro round_half_even_ge) simp
  have "q / 2 powi p \<le> 2 powi (e + 1) / 2 powi p"
    using eb(2) by (simp add: divide_right_mono)
  also have "\<dots> = 2 powi (e + 1 - p)" by (simp add: power_int_diff)
  also have "\<dots> \<le> 2 powi 53" using p2 by (intro powi_mono2) simp
  finally have "q / 2 powi p \<le> of_int (2 ^ 53)" by simp
  then have n53: "n \<le> 2 ^ 53" unfolding n_def by (rule round_half_even_le)
  show ?thesis
  proof (cases "n = 0")
    case True
    then show ?thesis by (simp add: v representable_0)
  next
    case n1: False
    have p971: "p \<le> 971 \<and> (n = 2 ^ 53 \<longrightarrow> p < 971)"
    proof (cases "p = - 1074")
      case True
      then show ?thesis by simp
    next
      case False
      then have pe: "p = e - 52" by (simp add: p_def max_def split: if_splits)
      have "of_int (2 ^ 52) = (2::rat) powi (e - p)" by (simp add: pe)
      also have "\<dots> = 2 powi e / 2 powi p" by (simp add: power_int_diff)
      also have "\<dots> \<le> q / 2 powi p" using eb(1) by (simp add: divide_right_mono)
      finally have "2 ^ 52 \<le> n" unfolding n_def by (rule round_half_even_ge)
      then have "(of_int (2 ^ 52) :: rat) \<le> of_int n" by (simp only: of_int_le_iff)
      then have "(2::rat) powi 52 \<le> of_int n" by simp
      then have "2 powi 52 * 2 powi p \<le> of_int n * (2::rat) powi p"
        by (simp add: mult_right_mono)
      then have "(2::rat) powi (52 + p) < 2 powi 1024"
        using fin v by (simp only: powi_add2)
      then have a: "52 + p < 1024" by (rule powi_less_cancel2)
      have "n = 2 ^ 53 \<longrightarrow> p < 971"
      proof
        assume "n = 2 ^ 53"
        then have "v = 2 powi 53 * 2 powi p" by (simp add: v)
        then have "(2::rat) powi (53 + p) < 2 powi 1024" using fin by (simp only: powi_add2)
        then have "53 + p < 1024" by (rule powi_less_cancel2)
        then show "p < 971" by simp
      qed
      with a show ?thesis by simp
    qed
    show ?thesis
    proof (cases "n = 2 ^ 53")
      case True
      have "v = of_nat (2 ^ 52) * 2 powi (p + 1)"
        by (simp add: v True powi_add2)
      moreover have "(2::nat) ^ 52 < 2 ^ 53" by simp
      moreover have "- 1074 \<le> p + 1" "p + 1 \<le> 971" using p1 p971 True by simp_all
      ultimately show ?thesis unfolding representable_def by blast
    next
      case False
      with n53 n0 have "nat n < 2 ^ 53" by simp
      moreover have "v = of_nat (nat n) * 2 powi p" using n0 by (simp add: v)
      ultimately show ?thesis unfolding representable_def using p1 p971 by blast
    qed
  qed
qed

lemma round_half_even_error: "\<bar>of_int (round_half_even r) - r\<bar> \<le> 1 / 2"
proof -
  have "of_int \<lfloor>r\<rfloor> \<le> r" "r < of_int \<lfloor>r\<rfloor> + 1" by linarith+
  then show ?thesis
    by (auto simp: round_half_even_def Let_def abs_le_iff)
qed

lemma round_double_error:
  assumes "0 < q" "q < 2 powi 1023" "p = max (ilog2 q - 52) (- 1074)"
  shows "\<exists>n. round_double q = Finite (of_int n * 2 powi p)
           \<and> n = round_half_even (q / 2 powi p)
           \<and> \<bar>of_int n * 2 powi p - q\<bar> \<le> 2 powi p / 2"
proof -
  define n where "n = round_half_even (q / 2 powi p)"
  have e: "\<bar>of_int n - q / 2 powi p\<bar> \<le> 1 / 2"
    unfolding n_def by (rule round_half_even_error)
  have "\<bar>of_int n * 2 powi p - q\<bar> = \<bar>of_int n - q / 2 powi p\<bar> * 2 powi p"
    by (simp add: abs_mult field_simps flip: abs_mult_pos)
  also have "\<dots> \<le> 1 / 2 * 2 powi p"
    using e by (intro mult_right_mono) simp_all
  finally have err: "\<bar>of_int n * 2 powi p - q\<bar> \<le> 2 powi p / 2" by simp
  have pb: "p \<le> 971"
  proof -
    have "2 powi ilog2 q < (2::rat) powi 1023"
      using ilog2_bounds [OF assms(1)] assms(2) by simp
    then have "ilog2 q < 1023" by (rule powi_less_cancel2)
    then show ?thesis by (simp add: assms(3))
  qed
  have "(2::rat) powi p \<le> 2 powi 971" using pb by (rule powi_mono2)
  moreover have "of_int n * (2::rat) powi p \<le> q + 2 powi p / 2"
    using err by linarith
  ultimately have "of_int n * (2::rat) powi p < 2 powi 1023 + 2 powi 971 / 2"
    using assms(2) by linarith
  also have "\<dots> < (2::rat) powi 1024" by simp
  finally have "\<not> 2 powi 1024 \<le> of_int n * (2::rat) powi p" by simp
  then have "round_double q = Finite (of_int n * 2 powi p)"
    using assms(1,3) by (simp add: round_double_def Let_def n_def)
  then show ?thesis using err n_def by blast
qed

section \<open>Amounts with two decimals\<close>

lemma decimal_value_nonneg: "decimal_value s = Some q \<Longrightarrow> 0 \<le> q"
  by (auto simp: decimal_value_def Let_def split: if_splits option.splits)

lemma py_float_representable:
  assumes "py_float s = Inr (Finite x)"
  shows "representable x"
proof -
  from assms obtain q where "decimal_value s = Some q" "round_double q = Finite x"
    by (auto simp: py_float_def split: option.splits)
  then show ?thesis
    using round_double_representable_result decimal_value_nonneg by blast
qed

lemma round_trip_exact:
  assumes "representable x" "representable (x * 1000)"
  shows "float_div (float_mul (Finite x) 1000) 1000 = Finite x"
  using assms by (simp add: round_double_representable)

lemma representableI:
  "q = of_nat m * 2 powi p \<Longrightarrow> m < 2 ^ 53 \<Longrightarrow> - 1074 \<le> p \<Longrightarrow> p \<le> 971 \<Longrightarrow> representable q"
  by (auto simp: representable_def)

lemma powi_52: "(2::rat) powi (p + 52) = 4503599627370496 * 2 powi p"
  by (simp add: powi_add2)

lemma powi_53: "(2::rat) powi (p + 53) = 9007199254740992 * 2 powi p"
  by (simp add: powi_add2)

lemma powi_9: "(2::rat) powi (p + 9) = 512 * 2 powi p"
  by (simp add: powi_add2)

lemma powi_10: "(2::rat) powi (p + 10) = 1024 * 2 powi p"
  by (simp add: powi_add2)

lemma two_decimal_round_trip:
  assumes k: "k < 10 ^ 14" and x: "round_double (of_nat k / 100) = Finite x"
  shows "float_div (float_mul (Finite x) 1000) 1000 = Finite x"
proof (cases "k = 0")
  case True
  with x have "x = 0" by (simp add: round_double_def)
  then show ?thesis by (simp add: round_double_def)
next
  case False
  define q :: rat where "q = of_nat k / 100"
  have q0: "0 < q" using False by (simp add: q_def)
  have qlo: "1 / 100 \<le> q" using False by (simp add: q_def)
  have qhi: "q < 10 ^ 12"
  proof -
    have "(of_nat k :: rat) < of_nat (10 ^ 14)" using k by (simp only: of_nat_less_iff)
    then show ?thesis by (simp add: q_def)
  qed
  define e where "e = ilog2 q"
  have eb: "2 powi e \<le> q" "q < 2 powi (e + 1)"
    using ilog2_bounds [OF q0] by (simp_all add: e_def)
  have elo: "- 7 \<le> e"
  proof -
    have "(2::rat) powi (- 7) < 2 powi (e + 1)" using qlo eb(2) by (simp add: power_int_minus)
    then have "- 7 < e + 1" by (rule powi_less_cancel2)
    then show ?thesis by simp
  qed
  have ehi: "e < 40"
  proof -
    have "(2::rat) powi e < 2 powi 40" using qhi eb(1) by simp
    then show ?thesis by (rule powi_less_cancel2)
  qed
  define p where "p = e - 52"
  have pm: "p = max (ilog2 q - 52) (- 1074)" using elo by (simp add: p_def e_def)
  define u :: rat where "u = 2 powi p"
  have u0: "0 < u" by (simp add: u_def)
  have e_u: "2 powi e = 4503599627370496 * u" "2 powi (e + 1) = 9007199254740992 * u"
  proof -
    have "e = p + 52" "e + 1 = p + 53" by (simp_all add: p_def)
    then show "2 powi e = 4503599627370496 * u" "2 powi (e + 1) = 9007199254740992 * u"
      by (simp_all only: powi_52 powi_53 u_def)
  qed
  have q1023: "q < 2 powi 1023"
  proof -
    have "q < 2 powi 40" using qhi by simp
    also have "\<dots> \<le> (2::rat) powi 1023" by (intro powi_mono2) simp
    finally show ?thesis .
  qed
  obtain n where n: "round_double q = Finite (of_int n * 2 powi p)"
      "n = round_half_even (q / 2 powi p)" "\<bar>of_int n * 2 powi p - q\<bar> \<le> 2 powi p / 2"
    using round_double_error [OF q0 q1023 pm] by blast
  have xn: "x = of_int n * u" using x n(1) by (simp add: q_def u_def)
  have err: "\<bar>x - q\<bar> \<le> u / 2" using n(3) by (simp add: xn u_def)
  have nlo: "2 ^ 52 \<le> n"
  proof -
    have "of_int (2 ^ 52) = 2 powi e / u" using u0 by (simp add: e_u)
    also have "\<dots> \<le> q / u" using eb(1) u0 by (simp add: divide_right_mono)
    finally show ?thesis unfolding n(2) u_def by (rule round_half_even_ge)
  qed
  have nhi: "n \<le> 2 ^ 53"
  proof -
    have "q / u \<le> 2 powi (e + 1) / u" using eb(2) u0 by (simp add: divide_right_mono)
    also have "\<dots> = of_int (2 ^ 53)" using u0 by (simp add: e_u)
    finally show ?thesis unfolding n(2) u_def by (rule round_half_even_le)
  qed
  have rx: "representable x"
    using round_double_representable_result [of "of_nat k / 100" x] x by simp
  have plo: "- 59 \<le> p" and phi: "p < - 12" using elo ehi by (simp_all add: p_def)
  show ?thesis
  proof (cases "n = 2 ^ 52 \<or> n = 2 ^ 53")
    case True
    then have "x * 1000 = of_nat 125 * 2 powi (p + 55) \<or> x * 1000 = of_nat 125 * 2 powi (p + 56)"
      by (auto simp: xn u_def powi_add2)
    then have "representable (x * 1000)"
    proof
      assume "x * 1000 = of_nat 125 * 2 powi (p + 55)"
      then show ?thesis by (rule representableI) (use plo phi in simp_all)
    next
      assume "x * 1000 = of_nat 125 * 2 powi (p + 56)"
      then show ?thesis by (rule representableI) (use plo phi in simp_all)
    qed
    with rx show ?thesis by (rule round_trip_exact)
  next
    case False
    with nlo nhi have nr: "2 ^ 52 + 1 \<le> n" "n \<le> 2 ^ 53 - 1" by simp_all
    have "(of_int (2 ^ 52 + 1) :: rat) \<le> of_int n" "(of_int n :: rat) \<le> of_int (2 ^ 53 - 1)"
      using nr by (simp_all only: of_int_le_iff)
    then have "4503599627370497 * u \<le> of_int n * u" "of_int n * u \<le> 9007199254740991 * u"
      using u0 by (simp_all add: mult_right_mono)
    then have xlo: "4503599627370497 * u \<le> x" and xhi: "x \<le> 9007199254740991 * u"
      by (simp_all add: xn)
    define w :: rat where "w = x * 1000"
    have w0: "0 < w" using xlo u0 by (simp add: w_def)
    define e' where "e' = ilog2 w"
    have e'b: "2 powi e' \<le> w" "w < 2 powi (e' + 1)"
      using ilog2_bounds [OF w0] by (simp_all add: e'_def)
    have e9: "(2::rat) powi (e + 9) = 512 * 2 powi e" and e11: "(2::rat) powi (e + 11) = 2048 * 2 powi e"
      by (simp_all add: powi_add2)
    have "(2::rat) powi (e + 9) < 2 powi (e' + 1)" "(2::rat) powi e' < 2 powi (e + 11)"
      using e'b xlo xhi u0 unfolding e9 e11 e_u w_def by linarith+
    then have "e + 9 < e' + 1" "e' < e + 11" by (auto dest: powi_less_cancel2)
    then have e'c: "e' = e + 9 \<or> e' = e + 10" by linarith
    define p' where "p' = e' - 52"
    have pm': "p' = max (ilog2 w - 52) (- 1074)" using e'c elo by (auto simp: p'_def e'_def)
    have w1023: "w < 2 powi 1023"
    proof -
      have "w < 2 powi (e' + 1)" by (rule e'b)
      also have "\<dots> \<le> (2::rat) powi 1023" using e'c ehi by (intro powi_mono2) auto
      finally show ?thesis .
    qed
    obtain n' where n': "round_double w = Finite (of_int n' * 2 powi p')"
      "\<bar>of_int n' * 2 powi p' - w\<bar> \<le> 2 powi p' / 2"
      using round_double_error [OF w0 w1023 pm'] by blast
    from e'c show ?thesis
    proof
      assume "e' = e + 9"
      then have "p' = p + 9" by (simp add: p'_def p_def)
      then have up: "2 powi p' = 512 * u" by (simp only: powi_9 u_def)
      define v :: rat where "v = of_int n' * 2 powi p' / 1000"
      have verr: "\<bar>v - x\<bar> \<le> 256 * u / 1000"
        using n'(2) unfolding up v_def w_def by (simp add: abs_le_iff field_simps)
      have vb: "x - 256 * u / 1000 \<le> v" "v \<le> x + 256 * u / 1000"
        using verr by linarith+
      have "round_double v = Finite (of_int n * 2 powi p)"
      proof (rule round_double_eq [where e = e])
        show "0 < v" using vb xlo u0 by linarith
        show "2 powi e \<le> v" using vb xlo u0 unfolding e_u by linarith
        show "v < 2 powi (e + 1)" using vb xhi u0 unfolding e_u by linarith
        show "p = max (e - 52) (- 1074)" using elo by (simp add: p_def)
        have "x - u / 2 < v" "v < x + u / 2"
          using vb u0 by linarith+
        then show "of_int n - 1 / 2 < v / 2 powi p" "v / 2 powi p < of_int n + 1 / 2"
          using u0 unfolding xn by (simp_all add: field_simps flip: u_def)
        have "of_int n * (2::rat) powi p < 2 powi (e + 1)"
          using xhi u0 unfolding e_u xn u_def by linarith
        also have "\<dots> \<le> (2::rat) powi 1024" using ehi by (intro powi_mono2) simp
        finally show "of_int n * 2 powi p < (2::rat) powi 1024" .
      qed
      then have rv: "round_double v = Finite x" by (simp add: xn u_def)
      have "float_mul (Finite x) 1000 = Finite (of_int n' * 2 powi p')"
        using n'(1) by (simp add: w_def)
      then have "float_div (float_mul (Finite x) 1000) 1000 = round_double v"
        by (simp add: v_def)
      then show ?thesis by (simp only: rv)
    next
      assume "e' = e + 10"
      then have p'p: "p' = p + 10" by (simp add: p'_def p_def)
      then have up: "2 powi p' = 1024 * u" by (simp only: powi_10 u_def)
      have p'neg: "p' \<le> 0" using p'p phi by simp
      define N0 :: int where "N0 = int (10 * k) * 2 ^ nat (- p')"
      have "(2::rat) powi p' = 1 / 2 ^ nat (- p')"
        using p'neg by (simp add: power_int_def inverse_eq_divide power_one_over)
      then have N0: "of_int N0 * (2::rat) powi p' = of_nat (10 * k)"
        by (simp add: N0_def)
      have K: "(of_nat (10 * k) :: rat) = 1000 * q" by (simp add: q_def)
      have werr: "\<bar>w - 1000 * q\<bar> \<le> 500 * u"
        using err unfolding w_def by linarith
      have "round_double w = Finite (of_int N0 * 2 powi p')"
      proof (rule round_double_eq [where e = e'])
        show "0 < w" by (rule w0)
        show "2 powi e' \<le> w" "w < 2 powi (e' + 1)" by (rule e'b)+
        show "p' = max (e' - 52) (- 1074)" using pm' by (simp add: e'_def)
        have "of_int N0 = 1000 * q / (1024 * u)"
          using N0 u0 unfolding up K by (simp add: field_simps)
        moreover have "1000 * q / (1024 * u) - 1 / 2 < w / (1024 * u)"
          "w / (1024 * u) < 1000 * q / (1024 * u) + 1 / 2"
        proof -
          have "1000 * q - 512 * u < w" "w < 1000 * q + 512 * u"
            using werr u0 by linarith+
          then have "(1000 * q - 512 * u) / (1024 * u) < w / (1024 * u)"
            "w / (1024 * u) < (1000 * q + 512 * u) / (1024 * u)"
            using u0 by (simp_all add: divide_strict_right_mono)
          moreover have "(1000 * q - 512 * u) / (1024 * u) = 1000 * q / (1024 * u) - 1 / 2"
            "(1000 * q + 512 * u) / (1024 * u) = 1000 * q / (1024 * u) + 1 / 2"
            using u0 by (simp_all add: diff_divide_distrib add_divide_distrib)
          ultimately show "1000 * q / (1024 * u) - 1 / 2 < w / (1024 * u)"
            "w / (1024 * u) < 1000 * q / (1024 * u) + 1 / 2"
            by simp_all
        qed
        ultimately show "of_int N0 - 1 / 2 < w / 2 powi p'" "w / 2 powi p' < of_int N0 + 1 / 2"
          unfolding up by simp_all
        have "of_int N0 * (2::rat) powi p' < 2 powi 50"
          using qhi unfolding N0 K by simp
        also have "\<dots> \<le> (2::rat) powi 1024" by (intro powi_mono2) simp
        finally show "of_int N0 * 2 powi p' < (2::rat) powi 1024" .
      qed
      then have "float_mul (Finite x) 1000 = Finite (1000 * q)"
        unfolding N0 K by (simp add: w_def)
      then have "float_div (float_mul (Finite x) 1000) 1000 = round_double q"
        by simp
      then show ?thesis using x by (simp add: q_def)
    qed
  qed
qed

lemma digit_value_ascii: "i < 10 \<Longrightarrow> digit_value (48 + i) = Some i"
  by (simp add: digit_value_def nd_starts_def)

lemma digits_value_decimal_digits:
  "digits_value 0 (decimal_digits n @ cs) = digits_value n cs"
proof (induction n arbitrary: cs rule: decimal_digits.induct)
  case (1 n)
  show ?case
  proof (cases "n < 10")
    case True
    then show ?thesis by (subst decimal_digits.simps) (simp add: digit_value_ascii)
  next
    case False
    have "digits_value 0 (decimal_digits n @ cs)
        = digits_value 0 (decimal_digits (n div 10) @ (48 + n mod 10) # cs)"
      using False by (subst decimal_digits.simps) simp
    also have "\<dots> = digits_value (n div 10) ((48 + n mod 10) # cs)"
      using False by (rule "1.IH")
    also have "\<dots> = digits_value n cs" by (simp add: digit_value_ascii)
    finally show ?thesis .
  qed
qed

lemma decimal_digits_no_dot: "c \<in> set (decimal_digits n) \<Longrightarrow> c \<noteq> dot"
proof (induction n rule: decimal_digits.induct)
  case (1 n)
  show ?case
  proof (cases "n < 10")
    case True
    with "1.prems" show ?thesis by (subst (asm) decimal_digits.simps) (simp add: dot_def)
  next
    case False
    with "1.prems" have "c \<in> set (decimal_digits (n div 10)) \<or> c = 48 + n mod 10"
      by (subst (asm) decimal_digits.simps) auto
    then show ?thesis using "1.IH" [OF False] by (auto simp: dot_def)
  qed
qed

lemma decimal_digits_nonempty: "decimal_digits n \<noteq> []"
  by (subst decimal_digits.simps) simp

lemma decimal_value_amount_numeral:
  assumes "c < 100"
  shows "decimal_value (amount_numeral n c) = Some (of_nat (100 * n + c) / 100)"
proof -
  have ip: "takeWhile (\<lambda>c. c \<noteq> dot) (amount_numeral n c) = decimal_digits n"
    unfolding amount_numeral_def using decimal_digits_no_dot
    by (subst takeWhile_append2) auto
  have fp: "dropWhile (\<lambda>c. c \<noteq> dot) (amount_numeral n c) = [dot, 48 + c div 10, 48 + c mod 10]"
    unfolding amount_numeral_def using decimal_digits_no_dot
    by (subst dropWhile_append2) auto
  have "c div 10 < 10" using assms by simp
  then have "digits_value 0 (decimal_digits n @ [48 + c div 10, 48 + c mod 10])
      = Some (10 * (10 * n + c div 10) + c mod 10)"
    by (simp add: digits_value_decimal_digits digit_value_ascii)
  moreover have "10 * (10 * n + c div 10) + c mod 10 = 100 * n + c" by simp
  ultimately show ?thesis
    by (simp add: decimal_value_def ip fp decimal_digits_nonempty del: of_nat_add of_nat_mult)
qed

lemma two_decimal_finite:
  assumes "k < 10 ^ 14"
  shows "\<exists>x. round_double (of_nat k / 100) = Finite x
           \<and> \<bar>x - of_nat k / 100\<bar> * 2 ^ 53 \<le> of_nat k / 100"
proof (cases "k = 0")
  case True
  then show ?thesis by (simp add: round_double_def)
next
  case False
  define q :: rat where "q = of_nat k / 100"
  have q0: "0 < q" using False by (simp add: q_def)
  have "(of_nat k :: rat) < of_nat (10 ^ 14)" using assms by (simp only: of_nat_less_iff)
  then have "q < 2 powi 47" by (simp add: q_def)
  also have "\<dots> \<le> (2::rat) powi 1023" by (intro powi_mono2) simp
  finally have q1023: "q < 2 powi 1023" .
  have qlo: "1 / 100 \<le> q" using False by (simp add: q_def)
  define e where "e = ilog2 q"
  have eb: "2 powi e \<le> q" "q < 2 powi (e + 1)"
    using ilog2_bounds [OF q0] by (simp_all add: e_def)
  have elo: "- 7 \<le> e"
  proof -
    have "(2::rat) powi (- 7) < 2 powi (e + 1)" using qlo eb(2) by (simp add: power_int_minus)
    then have "- 7 < e + 1" by (rule powi_less_cancel2)
    then show ?thesis by simp
  qed
  define p where "p = e - 52"
  have pm: "p = max (ilog2 q - 52) (- 1074)" using elo by (simp add: p_def e_def)
  obtain n where n: "round_double q = Finite (of_int n * 2 powi p)"
      "\<bar>of_int n * 2 powi p - q\<bar> \<le> 2 powi p / 2"
    using round_double_error [OF q0 q1023 pm] by blast
  have "e = p + 52" by (simp add: p_def)
  then have "(2::rat) powi e = 4503599627370496 * 2 powi p" by (simp only: powi_52)
  then have "2 powi p * 2 ^ 52 \<le> q" using eb(1) by simp
  then have "2 powi p / 2 * 2 ^ 53 \<le> q" by simp
  moreover have "\<bar>of_int n * 2 powi p - q\<bar> * 2 ^ 53 \<le> 2 powi p / 2 * 2 ^ 53"
    using n(2) by (intro mult_right_mono) simp_all
  ultimately have "\<bar>of_int n * 2 powi p - q\<bar> * 2 ^ 53 \<le> q" by linarith
  with n(1) show ?thesis unfolding q_def by blast
qed

lemma round_double_950157:
  "round_double (950157 / 100) = Finite (1305885837140951 / 137438953472)"
  using round_double_eq [of "950157 / 100" 13 "- 39" 5223543348563804]
  by (simp add: power_int_minus)

section \<open>The valuation parse\<close>

lemmas sensor_key_defs =
  SENSOR_COLLECTION_TYPE_def SENSOR_WANTLIST_TYPE_def SENSOR_RANDOM_RECORD_TYPE_def
  SENSOR_COLLECTION_VALUE_MIN_TYPE_def SENSOR_COLLECTION_VALUE_MEDIAN_TYPE_def
  SENSOR_COLLECTION_VALUE_MAX_TYPE_def SENSOR_VINYL_COUNT_TYPE_def SENSOR_CD_COUNT_TYPE_def

lemma representable_of_nat: "n < 2 ^ 53 \<Longrightarrow> representable (of_nat n)"
  unfolding representable_def by (rule exI[of _ n], rule exI[of _ 0]) simp

lemma comma_not_numeric: "\<not> (is_decimal comma \<or> comma = dot)"
  by (simp add: is_decimal_def digit_value_def nd_starts_def comma_def dot_def)

lemma numeric_value_str_filter:
  "numeric_value_str s = filter (\<lambda>c. is_decimal c \<or> c = dot) s"
proof -
  have "(\<lambda>c. c \<noteq> comma \<and> (is_decimal c \<or> c = dot)) = (\<lambda>c. is_decimal c \<or> c = dot)"
    using comma_not_numeric by auto
  then show ?thesis
    by (simp add: numeric_value_str_def sub_non_numeric_def replace_commas_def)
qed

lemma numeric_value_str_chars:
  "c \<in> set (numeric_value_str s) \<Longrightarrow> is_decimal c \<or> c = dot"
  by (simp add: numeric_value_str_filter)

lemma update_value_key:
  assumes "key (entity_description s) \<in> set value_keys"
  shows "update randrange d s g =
    (Inr (s\<lparr>attr_native_value :=
             parse_value (dict_get d (key_map (key (entity_description s))) PNone)\<rparr>), g)"
  using assms by (auto simp: update_def Let_def value_keys_def sensor_key_defs)

lemma parse_value_amount:
  assumes f: "filter (\<lambda>c. is_decimal c \<or> c = dot) value_str = amount_numeral n c"
    and n: "n < 10 ^ 12" and c: "c < 100"
    and x: "round_double (of_nat n + of_nat c / 100) = Finite x"
  shows "parse_value (PStr value_str) = PFloat (Finite x)"
proof -
  have k: "100 * n + c < 10 ^ 14" using n c by simp
  have q: "(of_nat (100 * n + c) :: rat) / 100 = of_nat n + of_nat c / 100" by simp
  have num: "numeric_value_str value_str = amount_numeral n c"
    using f by (simp add: numeric_value_str_filter)
  have ne: "amount_numeral n c \<noteq> []" by (simp add: amount_numeral_def)
  then have "value_str \<noteq> []" using f by auto
  moreover have "py_float (amount_numeral n c) = Inr (Finite x)"
    using x by (simp only: py_float_def decimal_value_amount_numeral [OF c] q option.case)
  moreover have "float_div (float_mul (Finite x) 1000) 1000 = Finite x"
    using k x by (intro two_decimal_round_trip [of "100 * n + c"]) (simp_all only: q)
  ultimately show ?thesis
    using ne by (simp add: parse_value_def num del: float_mul.simps float_div.simps)
qed

text \<open>
  Claim C1. Take a value sensor whose stored valuation string, once everything but its
  decimal digits and points is dropped, is the numeral of an amount of \<open>n\<close> units and \<open>c\<close>
  hundredths (\<open>n\<close> below \<open>10 ^ 12\<close>); whatever other characters stand between the digits
  (thousands separators, a currency symbol such as the euro sign of \<open>"\<euro>1,792,790.00"\<close>) are
  dropped by the cleaning. Then \<open>update\<close> sets the native value to a finite float \<open>x\<close> and
  changes nothing else; \<open>x\<close> is the binary64 number nearest the decimal number
  \<open>n + c / 100\<close>, within a relative error of \<open>2 ^ - 53\<close>, and it is \<open>n\<close> itself when the
  amount is whole: \<open>1792790.0\<close> for the example.
\<close>

theorem update_parses_grouped_currency_string:
  assumes "key (entity_description s) \<in> set value_keys"
    and "d (key_map (key (entity_description s))) = Some (PStr value_str)"
    and "filter (\<lambda>c. is_decimal c \<or> c = dot) value_str = amount_numeral n c"
    and "n < 10 ^ 12" and "c < 100"
  shows "\<exists>x. update randrange d s g = (Inr (s\<lparr>attr_native_value := PFloat (Finite x)\<rparr>), g)
           \<and> round_double (of_nat n + of_nat c / 100) = Finite x
           \<and> \<bar>x - (of_nat n + of_nat c / 100)\<bar> * 2 ^ 53 \<le> of_nat n + of_nat c / 100
           \<and> (c = 0 \<longrightarrow> x = of_nat n)"
proof -
  have k: "100 * n + c < 10 ^ 14" using assms(4,5) by simp
  have q: "(of_nat (100 * n + c) :: rat) / 100 = of_nat n + of_nat c / 100" by simp
  obtain x where x: "round_double (of_nat n + of_nat c / 100) = Finite x"
      and err: "\<bar>x - (of_nat n + of_nat c / 100)\<bar> * 2 ^ 53 \<le> of_nat n + of_nat c / 100"
    using two_decimal_finite [OF k] unfolding q by blast
  have "parse_value (PStr value_str) = PFloat (Finite x)"
    using assms(3,4,5) x by (rule parse_value_amount)
  then have "update randrange d s g = (Inr (s\<lparr>attr_native_value := PFloat (Finite x)\<rparr>), g)"
    using assms(2) by (simp add: update_value_key [OF assms(1)] dict_get_def)
  moreover have "x = of_nat n" if "c = 0"
  proof -
    have "n < 2 ^ 53" using assms(4) by simp
    then have "round_double (of_nat n) = Finite (of_nat n)"
      by (intro round_double_representable representable_of_nat)
    with x that show ?thesis by simp
  qed
  ultimately show ?thesis using x err by blast
qed

theorem update_parses_grouped_currency_string_witness:
  "update (\<lambda>n g. (0, g))
     (initial_data(''collection_value_min'' \<mapsto> PStr (8364 # ustr ''1,792,790.00'')))
     (value_sensor SENSOR_COLLECTION_VALUE_MIN_TYPE ''Collection Value (Min)'') ()
   = (Inr ((value_sensor SENSOR_COLLECTION_VALUE_MIN_TYPE ''Collection Value (Min)'')
        \<lparr>attr_native_value := PFloat (Finite 1792790)\<rparr>), ())
   \<and> update (\<lambda>n g. (0, g))
     (initial_data(''collection_value_min'' \<mapsto> PStr (8364 # ustr ''9,501.57'')))
     (value_sensor SENSOR_COLLECTION_VALUE_MIN_TYPE ''Collection Value (Min)'') ()
   = (Inr ((value_sensor SENSOR_COLLECTION_VALUE_MIN_TYPE ''Collection Value (Min)'')
        \<lparr>attr_native_value := PFloat (Finite (1305885837140951 / 137438953472))\<rparr>), ())"
proof -
  have a: "update (\<lambda>n g. (0, g))
     (initial_data(''collection_value_min'' \<mapsto> PStr (8364 # ustr ''1,792,790.00'')))
     (value_sensor SENSOR_COLLECTION_VALUE_MIN_TYPE ''Collection Value (Min)'') ()
   = (Inr ((value_sensor SENSOR_COLLECTION_VALUE_MIN_TYPE ''Collection Value (Min)'')
        \<lparr>attr_native_value := PFloat (Finite 1792790)\<rparr>), ())"
    using update_parses_grouped_currency_string
      [of "value_sensor SENSOR_COLLECTION_VALUE_MIN_TYPE ''Collection Value (Min)''"
        "initial_data(''collection_value_min'' \<mapsto> PStr (8364 # ustr ''1,792,790.00''))"
        "8364 # ustr ''1,792,790.00''" 1792790 0 "\<lambda>n g. (0, g)" "()"]
    by (auto simp: value_sensor_def value_keys_def key_map_def sensor_key_defs ustr_def is_decimal_def
        digit_value_def nd_starts_def dot_def amount_numeral_def decimal_digits.simps)
  have b: "update (\<lambda>n g. (0, g))
     (initial_data(''collection_value_min'' \<mapsto> PStr (8364 # ustr ''9,501.57'')))
     (value_sensor SENSOR_COLLECTION_VALUE_MIN_TYPE ''Collection Value (Min)'') ()
   = (Inr ((value_sensor SENSOR_COLLECTION_VALUE_MIN_TYPE ''Collection Value (Min)'')
        \<lparr>attr_native_value := PFloat (Finite (1305885837140951 / 137438953472))\<rparr>), ())"
    using update_parses_grouped_currency_string
      [of "value_sensor SENSOR_COLLECTION_VALUE_MIN_TYPE ''Collection Value (Min)''"
        "initial_data(''collection_value_min'' \<mapsto> PStr (8364 # ustr ''9,501.57''))"
        "8364 # ustr ''9,501.57''" 9501 57 "\<lambda>n g. (0, g)" "()"]
    by (auto simp: value_sensor_def value_keys_def key_map_def sensor_key_defs ustr_def is_decimal_def
        digit_value_def nd_starts_def dot_def amount_numeral_def decimal_digits.simps
        round_double_950157)
  show ?thesis using a b by (rule conjI)
qed

lemma numeric_value_str_empty:
  assumes "\<forall>c\<in>set value_str. \<not> is_decimal c \<and> c \<noteq> dot"
  shows "numeric_value_str value_str = []"
  using assms by (auto simp: numeric_value_str_filter filter_empty_conv)

lemma parse_value_symbols:
  assumes "\<forall>c\<in>set value_str. \<not> is_decimal c \<and> c \<noteq> dot"
  shows "parse_value (PStr value_str) = PNone"
  by (simp add: parse_value_def numeric_value_str_empty [OF assms])

text \<open>
  Claim C2. Take entity \<open>i\<close> of a platform, a value sensor whose stored valuation string
  holds no decimal digit and no point (the empty string, or symbols only such as a
  lone em dash), so that the cleaning leaves the empty string. Polling it sets the native
  value of that entity to \<open>None\<close>, not to a number, and the platform is otherwise as before:
  the shared \<open>discogs_data\<close>, the generator state and every other entity are unchanged.
\<close>

theorem poll_symbol_only_value_is_null:
  assumes "i < length (entities p)"
    and "key (entity_description (entities p ! i)) \<in> set value_keys"
    and "discogs_data p (key_map (key (entity_description (entities p ! i)))) = Some (PStr value_str)"
    and "\<forall>c\<in>set value_str. \<not> is_decimal c \<and> c \<noteq> dot"
  shows "poll randrange i p g =
      (Inr (p\<lparr>entities := (entities p)[i := (entities p ! i)\<lparr>attr_native_value := PNone\<rparr>]\<rparr>), g)"
proof -
  have "update randrange (discogs_data p) (entities p ! i) g =
      (Inr ((entities p ! i)\<lparr>attr_native_value := PNone\<rparr>), g)"
    using assms(3) parse_value_symbols [OF assms(4)]
    by (simp add: update_value_key [OF assms(2)] dict_get_def)
  then show ?thesis
    using assms(1) by (simp add: poll_def)
qed

theorem poll_symbol_only_value_is_null_witness:
  "poll (\<lambda>n g. (0, g)) 0 dash_platform () =
     (Inr (dash_platform\<lparr>entities :=
        [(value_sensor SENSOR_COLLECTION_VALUE_MIN_TYPE ''Collection Value (Min)'')
           \<lparr>attr_native_value := PNone\<rparr>,
         value_sensor SENSOR_COLLECTION_VALUE_MEDIAN_TYPE ''Collection Value (Median)'']\<rparr>), ())"
  using poll_symbol_only_value_is_null [of 0 dash_platform "[8212]" "\<lambda>n g. (0, g)" "()"]
  by (simp add: dash_platform_def value_sensor_def value_keys_def key_map_def sensor_key_defs
      is_decimal_def digit_value_def nd_starts_def dot_def)

section \<open>The multiplication and division by 1000\<close>

lemma round_double_0021:
  "round_double (21 / 10000) = Finite (4842270319348757 / 2305843009213693952)"
  using round_double_eq [of "21 / 10000" "- 9" "- 61" 4842270319348757]
  by (simp add: power_int_minus)

lemma round_double_0021_times:
  "round_double (4842270319348757 / 2305843009213693952 * 1000) =
     Finite (4728779608739021 / 2251799813685248)"
  using round_double_eq [of "4842270319348757 / 2305843009213693952 * 1000" 1 "- 51"
      4728779608739021]
  by (simp add: power_int_minus)

lemma round_double_0021_back:
  "round_double (4728779608739021 / 2251799813685248 / 1000) =
     Finite (2421135159674379 / 1152921504606846976)"
  using round_double_eq [of "4728779608739021 / 2251799813685248 / 1000" "- 9" "- 61"
      4842270319348758]
  by (simp add: power_int_minus)

lemma numeric_value_str_0021: "numeric_value_str (ustr ''0.0021'') = ustr ''0.0021''"
  by (simp add: numeric_value_str_filter ustr_def is_decimal_def digit_value_def nd_starts_def
      dot_def)

lemma py_float_0021:
  "py_float (ustr ''0.0021'') = Inr (Finite (4842270319348757 / 2305843009213693952))"
proof -
  have "decimal_value (ustr ''0.0021'') = Some (21 / 10000)"
    by (simp add: ustr_def decimal_value_def dot_def digit_value_def nd_starts_def)
  then show ?thesis by (simp add: py_float_def round_double_0021)
qed

text \<open>
  Claim C3, as stated, fails: for the parsable string \<open>"0.0021"\<close> the float nearest to
  0.0021 is \<open>4842270319348757 / 2^61\<close>; multiplied by 1000.0 it rounds to
  \<open>4728779608739021 / 2^51\<close>, and that divided by 1000.0 rounds to
  \<open>4842270319348758 / 2^61\<close>, the next float up. The implementation's value differs from
  the direct parse in the last bit.
\<close>

theorem round_trip_changes_0021:
  "parse_value (PStr (ustr ''0.0021'')) = PFloat (Finite (2421135159674379 / 1152921504606846976))
   \<and> parse_value_direct (PStr (ustr ''0.0021'')) =
       PFloat (Finite (4842270319348757 / 2305843009213693952))
   \<and> parse_value (PStr (ustr ''0.0021'')) \<noteq> parse_value_direct (PStr (ustr ''0.0021''))"
proof -
  have ne: "ustr ''0.0021'' \<noteq> []" by (simp add: ustr_def)
  have m: "float_mul (Finite (4842270319348757 / 2305843009213693952)) 1000 =
      Finite (4728779608739021 / 2251799813685248)"
    by (simp only: float_mul.simps round_double_0021_times)
  have dv: "float_div (Finite (4728779608739021 / 2251799813685248)) 1000 =
      Finite (2421135159674379 / 1152921504606846976)"
    by (simp only: float_div.simps round_double_0021_back)
  have a: "parse_value (PStr (ustr ''0.0021'')) =
      PFloat (Finite (2421135159674379 / 1152921504606846976))"
    using ne
    by (simp add: parse_value_def numeric_value_str_0021 py_float_0021 m dv
        del: float_mul.simps float_div.simps)
  have b: "parse_value_direct (PStr (ustr ''0.0021'')) =
      PFloat (Finite (4842270319348757 / 2305843009213693952))"
    using ne by (simp add: parse_value_direct_def numeric_value_str_0021 py_float_0021)
  show ?thesis unfolding a b by simp
qed

lemma parse_value_direct_cases:
  assumes "\<And>s x. value_str = PStr s \<Longrightarrow> s \<noteq> [] \<Longrightarrow> numeric_value_str s \<noteq> [] \<Longrightarrow>
      py_float (numeric_value_str s) = Inr (Finite x) \<Longrightarrow>
      float_div (float_mul (Finite x) 1000) 1000 = Finite x"
  shows "parse_value value_str = parse_value_direct value_str"
proof (cases value_str)
  case (PStr s)
  show ?thesis
  proof (cases "s \<noteq> [] \<and> numeric_value_str s \<noteq> []")
    case True
    show ?thesis
    proof (cases "py_float (numeric_value_str s)")
      case (Inl e)
      then show ?thesis using True PStr by (simp add: parse_value_def parse_value_direct_def)
    next
      case (Inr raw_value)
      show ?thesis
      proof (cases raw_value)
        case (Finite x)
        have "float_div (float_mul (Finite x) 1000) 1000 = Finite x"
          using assms [OF PStr] True Inr Finite by simp
        then show ?thesis
          using True PStr Inr Finite
          by (simp add: parse_value_def parse_value_direct_def
              del: float_mul.simps float_div.simps)
      next
        case Infinity
        then show ?thesis
          using True PStr Inr by (simp add: parse_value_def parse_value_direct_def)
      qed
    qed
  next
    case False
    then show ?thesis using PStr by (auto simp: parse_value_def parse_value_direct_def)
  qed
qed (simp_all add: parse_value_def parse_value_direct_def)

text \<open>
  Claim C3, amended. The implementation (parse, multiply by 1000.0, divide by 1000.0)
  yields the value of the direct parse in each of these cases: the direct parse is a
  finite float \<open>x\<close> such that \<open>1000 * x\<close> is itself a binary64 number; or the cleaned
  string denotes a number of hundredths \<open>k / 100\<close> with \<open>k < 10^14\<close>, that is, an amount
  below \<open>10^12\<close> written with at most two decimals, as Discogs writes its valuations. The
  two also agree when the direct parse is infinite or \<open>None\<close>.
\<close>

theorem round_trip_identity_when_exact:
  assumes "(\<forall>x. parse_value_direct value_str = PFloat (Finite x) \<longrightarrow> representable (x * 1000))
    \<or> (\<exists>s k. value_str = PStr s
          \<and> decimal_value (numeric_value_str s) = Some (of_nat k / 100) \<and> k < 10 ^ 14)"
  shows "parse_value value_str = parse_value_direct value_str"
proof (rule parse_value_direct_cases)
  fix s x
  assume s: "value_str = PStr s" "s \<noteq> []" "numeric_value_str s \<noteq> []"
    and f: "py_float (numeric_value_str s) = Inr (Finite x)"
  from assms show "float_div (float_mul (Finite x) 1000) 1000 = Finite x"
  proof
    assume "\<forall>x. parse_value_direct value_str = PFloat (Finite x) \<longrightarrow> representable (x * 1000)"
    moreover have "parse_value_direct value_str = PFloat (Finite x)"
      using s f by (simp add: parse_value_direct_def)
    ultimately have "representable (x * 1000)" by blast
    moreover have "representable x" using f by (rule py_float_representable)
    ultimately show ?thesis using round_trip_exact by blast
  next
    assume "\<exists>s k. value_str = PStr s
      \<and> decimal_value (numeric_value_str s) = Some (of_nat k / 100) \<and> k < 10 ^ 14"
    then obtain k where k: "decimal_value (numeric_value_str s) = Some (of_nat k / 100)"
      "k < 10 ^ 14"
      using s(1) by auto
    then have "round_double (of_nat k / 100) = Finite x"
      using f by (simp add: py_float_def)
    with k(2) show ?thesis by (rule two_decimal_round_trip)
  qed
qed

theorem round_trip_identity_when_exact_witness:
  "decimal_value (numeric_value_str (8364 # ustr ''9,501.57'')) = Some (of_nat 950157 / 100)
   \<and> parse_value_direct (PStr (8364 # ustr ''9,501.57'')) =
       PFloat (Finite (1305885837140951 / 137438953472))
   \<and> parse_value (PStr (8364 # ustr ''9,501.57'')) =
       PFloat (Finite (1305885837140951 / 137438953472))"
proof -
  have n: "numeric_value_str (8364 # ustr ''9,501.57'') = ustr ''9501.57''"
    by (simp add: numeric_value_str_filter ustr_def is_decimal_def digit_value_def nd_starts_def
        dot_def)
  have ne: "ustr ''9501.57'' \<noteq> []" by (simp add: ustr_def)
  have dv: "decimal_value (ustr ''9501.57'') = Some (of_nat 950157 / 100)"
    by (simp add: ustr_def decimal_value_def dot_def digit_value_def nd_starts_def)
  have d: "parse_value_direct (PStr (8364 # ustr ''9,501.57'')) =
      PFloat (Finite (1305885837140951 / 137438953472))"
    using ne dv round_double_950157 by (simp add: parse_value_direct_def n py_float_def)
  have "parse_value (PStr (8364 # ustr ''9,501.57'')) =
      parse_value_direct (PStr (8364 # ustr ''9,501.57''))"
    using round_trip_identity_when_exact [of "PStr (8364 # ustr ''9,501.57'')"] dv
    by (simp add: n)
  with d dv show ?thesis by (simp add: n)
qed

section \<open>Counting formats\<close>

lemma py_lower_Cons: "py_lower (a # s) = lower_cp a @ py_lower s"
  by (simp add: py_lower_def)

lemma py_lower_Nil [simp]: "py_lower [] = []"
  by (simp add: py_lower_def)

lemma py_lower_matches:
  assumes "\<forall>c\<in>set w. 97 \<le> c \<and> c \<le> 122 \<and> c \<noteq> 107"
  shows "py_lower s = w \<longleftrightarrow> matches_ci s w"
  using assms
proof (induction s arbitrary: w)
  case Nil
  then show ?case by (auto simp: matches_ci_def)
next
  case (Cons a s)
  show ?case
  proof (cases w)
    case Nil
    then show ?thesis by (auto simp: matches_ci_def py_lower_Cons lower_cp_def)
  next
    case (Cons b w')
    have w': "\<forall>c\<in>set w'. 97 \<le> c \<and> c \<le> 122 \<and> c \<noteq> 107"
      and b: "97 \<le> b" "b \<le> 122" "b \<noteq> 107"
      using Cons.prems Cons by auto
    have IH: "py_lower s = w' \<longleftrightarrow> matches_ci s w'" using Cons.IH [OF w'] .
    have no775: "775 \<notin> set w'" using w' by auto
    have "lower_cp a @ py_lower s = b # w' \<longleftrightarrow> same_letter a b \<and> py_lower s = w'"
      using b no775 by (auto simp: lower_cp_def same_letter_def)
    then show ?thesis
      using IH by (simp add: matches_ci_def py_lower_Cons Cons)
  qed
qed

lemma vinyl_word: "\<forall>c\<in>set (ustr ''vinyl''). 97 \<le> c \<and> c \<le> 122 \<and> c \<noteq> 107"
  by (simp add: ustr_def)

lemma cd_word: "\<forall>c\<in>set (ustr ''cd''). 97 \<le> c \<and> c \<le> 122 \<and> c \<noteq> 107"
  by (simp add: ustr_def)

lemma not_both: "\<not> (matches_ci n (ustr ''vinyl'') \<and> matches_ci n (ustr ''cd''))"
proof
  assume "matches_ci n (ustr ''vinyl'') \<and> matches_ci n (ustr ''cd'')"
  then have "length n = length (ustr ''vinyl'')" "length n = length (ustr ''cd'')"
    by (auto simp: matches_ci_def dest: list_all2_lengthD)
  then show False by (simp add: ustr_def)
qed

lemma matches_nonempty: "matches_ci [] (ustr ''vinyl'') = False" "matches_ci [] (ustr ''cd'') = False"
  by (simp_all add: matches_ci_def ustr_def)

lemma count_formats_fetched:
  "count_formats (map Inr items) v c =
     Inr (v + int (length (filter (first_format_matches ''vinyl'') items)),
          c + int (length (filter (first_format_matches ''cd'') items)))"
proof (induction items arbitrary: v c)
  case Nil
  then show ?case by simp
next
  case (Cons r items)
  show ?case
    using not_both
    by (auto simp: Cons.IH first_format_matches_def matches_nonempty
        py_lower_matches [OF vinyl_word] py_lower_matches [OF cd_word]
        split: option.splits list.splits)
qed

text \<open>
  Claim C4. For every list of collection items that the walk fetches, the classification
  returns as vinyl count the number of items whose first format entry has a name matching
  \<open>vinyl\<close> without regard to case, and as CD count the number of those whose first entry
  matches \<open>cd\<close>; later entries of a format list, missing or empty names and all other
  formats count for nothing. Items whose first format names are \<open>Vinyl\<close>, \<open>CD\<close>,
  \<open>vinyl\<close>, \<open>Cassette\<close> give vinyl count 2 and CD count 1.
\<close>

theorem count_formats_first_entry:
  "count_formats (map Inr items) 0 0 =
     Inr (int (length (filter (first_format_matches ''vinyl'') items)),
          int (length (filter (first_format_matches ''cd'') items)))
   \<and> count_formats (map (\<lambda>nm. Inr (release_with_format nm))
         [''Vinyl'', ''CD'', ''vinyl'', ''Cassette'']) 0 0 = Inr (2, 1)"
proof
  show "count_formats (map Inr items) 0 0 =
     Inr (int (length (filter (first_format_matches ''vinyl'') items)),
          int (length (filter (first_format_matches ''cd'') items)))"
    by (simp add: count_formats_fetched)
  show "count_formats (map (\<lambda>nm. Inr (release_with_format nm))
         [''Vinyl'', ''CD'', ''vinyl'', ''Cassette'']) 0 0 = Inr (2, 1)"
    by (simp add: release_with_format_def ustr_def py_lower_def lower_cp_def)
qed

theorem count_formats_first_entry_witness:
  "count_formats
     [Inr \<lparr>formats = Some [\<lparr>fmt_name = Some (ustr ''CD'')\<rparr>, \<lparr>fmt_name = Some (ustr ''Vinyl'')\<rparr>],
           artists = None, title = None\<rparr>,
      Inr \<lparr>formats = Some [\<lparr>fmt_name = Some (ustr ''VINYL'')\<rparr>], artists = None, title = None\<rparr>,
      Inr \<lparr>formats = Some [], artists = None, title = None\<rparr>,
      Inr \<lparr>formats = None, artists = None, title = None\<rparr>] 0 0 = Inr (1, 1)"
  using count_formats_first_entry
    [of "[\<lparr>formats = Some [\<lparr>fmt_name = Some (ustr ''CD'')\<rparr>, \<lparr>fmt_name = Some (ustr ''Vinyl'')\<rparr>],
           artists = None, title = None\<rparr>,
      \<lparr>formats = Some [\<lparr>fmt_name = Some (ustr ''VINYL'')\<rparr>], artists = None, title = None\<rparr>,
      \<lparr>formats = Some [], artists = None, title = None\<rparr>,
      \<lparr>formats = None, artists = None, title = None\<rparr>]"]
  by (simp add: first_format_matches_def matches_ci_def same_letter_def ustr_def)

section \<open>Setup\<close>

lemma fetch_collection_value_not_caught:
  "fetch_collection_value ev = Inl e \<Longrightarrow> value_call ev = Inl e"
  by (auto simp: fetch_collection_value_def split: sum.splits if_splits)

lemma populate_identity_keeps:
  assumes "populate_identity idn d = (d', r)"
    and "k \<notin> {''user'', ''folders'', ''collection_count'', ''wantlist_count'', ''currency_symbol''}"
  shows "d' k = d k"
  using assms
  by (auto simp: populate_identity_def Let_def split: sum.splits)

lemma populate_identity_dom:
  assumes "populate_identity idn d = (d', r)" "d k \<noteq> None"
  shows "d' k \<noteq> None"
  using assms
  by (auto simp: populate_identity_def Let_def split: sum.splits if_splits)

lemma populate_identity_currency:
  assumes "populate_identity idn d = (d', r)"
  shows "d' ''currency_symbol'' =
     (if r = None then
        (case resolve_currency idn (PStr (ustr ''$'')) of Inr cur \<Rightarrow> Some cur | Inl e \<Rightarrow> None)
      else d ''currency_symbol'')"
  using assms
  by (auto simp: populate_identity_def Let_def split: sum.splits)

lemma populate_identity_count:
  assumes "populate_identity idn d = (d', r)"
  shows "d' ''collection_count'' = d ''collection_count''
       \<or> (\<exists>n. num_collection idn = Inr n \<and> d' ''collection_count'' = Some (PInt n))"
  using assms
  by (auto simp: populate_identity_def Let_def split: sum.splits)

lemma initial_data_simps:
  "initial_data ''collection_count'' = Some (PInt 0)"
  "initial_data ''collection_value_min'' = Some (PStr (ustr ''0.00''))"
  "initial_data ''collection_value_median'' = Some (PStr (ustr ''0.00''))"
  "initial_data ''collection_value_max'' = Some (PStr (ustr ''0.00''))"
  "initial_data ''currency_symbol'' = Some (PStr (ustr ''$''))"
  "initial_data SENSOR_VINYL_COUNT_TYPE = Some (PInt 0)"
  "initial_data SENSOR_CD_COUNT_TYPE = Some (PInt 0)"
  by (simp_all add: initial_data_def sensor_key_defs)

lemma fetch_initial_data_keeps:
  assumes "fetch_initial_data ev d = (d', i, r)"
    and "k \<notin> {''user'', ''folders'', ''collection_count'', ''wantlist_count'', ''currency_symbol'',
            ''collection_value_min'', ''collection_value_median'', ''collection_value_max''}"
  shows "d' k = d k"
  using assms populate_identity_keeps [of _ d _ _ k]
  by (auto simp: fetch_initial_data_def split: sum.splits prod.splits option.splits)

lemma fetch_initial_data_dom:
  assumes "fetch_initial_data ev d = (d', i, r)" "d k \<noteq> None"
  shows "d' k \<noteq> None"
  using assms populate_identity_dom [of _ d _ _ k]
  by (auto simp: fetch_initial_data_def split: sum.splits prod.splits option.splits if_splits)

lemma fetch_initial_data_count:
  assumes "fetch_initial_data ev d = (d', i, r)"
  shows "d' ''collection_count'' = d ''collection_count''
       \<or> (\<exists>idn n. identity_call ev = Inr idn \<and> num_collection idn = Inr n
             \<and> d' ''collection_count'' = Some (PInt n))"
  using assms populate_identity_count [of _ d]
  by (auto simp: fetch_initial_data_def split: sum.splits prod.splits option.splits) blast+

lemma format_counts_step_skip:
  assumes "d ''collection_count'' = Some (PInt 0)"
  shows "format_counts_step i d = Inr d"
  using assms by (simp add: format_counts_step_def dict_item_def)

text \<open>
  Claim C6. When the identity request raises the client's \<open>HTTPError\<close> (what an invalid
  token gives), \<open>setup_platform\<close> returns early: no exception leaves it, no sensor is
  built and \<open>add_entities\<close> is not called.
\<close>

theorem setup_aborts_on_http_error:
  assumes "identity_call ev = Inl HTTPError"
  shows "setup_platform ev cfg = Aborted"
  using assms by (simp add: setup_platform_def fetch_initial_data_def)

text \<open>
  Claim C5. When the identity reports \<open>num_collection = 0\<close>, step 3 leaves the dict built
  by the first \<open>try\<close> block exactly as it is, whatever the folders hold, and every snapshot
  that setup hands on has vinyl count 0 and CD count 0.
\<close>

theorem empty_collection_skips_format_counts:
  assumes "identity_call ev = Inr idn" and "num_collection idn = Inr 0"
  shows "format_counts_step (Some idn) (fst (fetch_initial_data ev initial_data)) =
           Inr (fst (fetch_initial_data ev initial_data))
       \<and> (\<forall>p. setup_platform ev cfg = Added p \<longrightarrow>
             discogs_data p = fst (fetch_initial_data ev initial_data)
           \<and> discogs_data p SENSOR_VINYL_COUNT_TYPE = Some (PInt 0)
           \<and> discogs_data p SENSOR_CD_COUNT_TYPE = Some (PInt 0))"
proof -
  obtain d i r where f: "fetch_initial_data ev initial_data = (d, i, r)"
    by (cases "fetch_initial_data ev initial_data")
  have c: "d ''collection_count'' = Some (PInt 0)"
    using fetch_initial_data_count [OF f] assms by (auto simp: initial_data_simps)
  have skip: "format_counts_step j d = Inr d" for j
    using c by (rule format_counts_step_skip)
  have v: "d SENSOR_VINYL_COUNT_TYPE = Some (PInt 0)" "d SENSOR_CD_COUNT_TYPE = Some (PInt 0)"
    using fetch_initial_data_keeps [OF f, of SENSOR_VINYL_COUNT_TYPE]
      fetch_initial_data_keeps [OF f, of SENSOR_CD_COUNT_TYPE]
    by (simp_all add: initial_data_simps) (simp_all add: sensor_key_defs)
  have "discogs_data p = d" if "setup_platform ev cfg = Added p" for p
    using that f skip
    by (auto simp: setup_platform_def split: if_splits sum.splits)
  then show ?thesis using f skip v by simp
qed

theorem setup_aborts_on_http_error_witness:
  "setup_platform (example_env\<lparr>identity_call := Inl HTTPError\<rparr>) example_config = Aborted"
  using setup_aborts_on_http_error [of "example_env\<lparr>identity_call := Inl HTTPError\<rparr>" example_config]
  by simp

lemmas setup_eval_defs =
  setup_platform_def fetch_initial_data_def populate_identity_def resolve_currency_def
  data_curr_abbr_def fetch_collection_value_def value_strings_def json_get_def
  format_counts_step_def count_collection_def dict_item_def new_sensor_def
  example_env_def example_identity_def example_config_def example_folder_def
  release_with_format_def SENSOR_TYPES_def value_keys_def UNIT_RECORDS_def
  initial_data_def sensor_key_defs ustr_def py_lower_def lower_cp_def Let_def

theorem empty_collection_skips_format_counts_witness:
  "(case setup_platform
           (example_env\<lparr>identity_call := Inr (example_identity\<lparr>num_collection := Inr 0\<rparr>)\<rparr>)
           example_config of
      Added p \<Rightarrow>
        discogs_data p SENSOR_VINYL_COUNT_TYPE = Some (PInt 0)
        \<and> discogs_data p SENSOR_CD_COUNT_TYPE = Some (PInt 0)
        \<and> discogs_data p ''folders'' = Some (PFolders [example_folder])
    | _ \<Rightarrow> False)"
  using empty_collection_skips_format_counts
    [of "example_env\<lparr>identity_call := Inr (example_identity\<lparr>num_collection := Inr 0\<rparr>)\<rparr>"
        "example_identity\<lparr>num_collection := Inr 0\<rparr>" example_config]
  by (simp add: setup_eval_defs)

lemma example_counts:
  "(case setup_platform example_env example_config of
      Added p \<Rightarrow>
        discogs_data p SENSOR_VINYL_COUNT_TYPE = Some (PInt 2)
        \<and> discogs_data p SENSOR_CD_COUNT_TYPE = Some (PInt 1)
        \<and> discogs_data p ''currency_symbol'' = Some (PStr (ustr ''EUR''))
        \<and> map (\<lambda>s. key (entity_description s)) (entities p) = [SENSOR_RANDOM_RECORD_TYPE, SENSOR_COLLECTION_VALUE_MIN_TYPE]
    | _ \<Rightarrow> False)"
  by (simp add: setup_eval_defs)

section \<open>The snapshot\<close>

lemma count_collection_keeps:
  assumes "count_collection d = Inr d'" "k \<noteq> SENSOR_VINYL_COUNT_TYPE" "k \<noteq> SENSOR_CD_COUNT_TYPE"
  shows "d' k = d k"
  using assms
  by (auto simp: count_collection_def split: sum.splits pyval.splits list.splits if_splits)

lemma format_counts_step_keeps:
  assumes "format_counts_step i d = Inr d'" "k \<noteq> SENSOR_VINYL_COUNT_TYPE" "k \<noteq> SENSOR_CD_COUNT_TYPE"
  shows "d' k = d k"
  using assms count_collection_keeps [of d _ k]
  by (auto simp: format_counts_step_def split: sum.splits pyval.splits if_splits)

lemma fetch_initial_data_values:
  assumes "fetch_initial_data ev d = (d', i, r)"
    and "k \<in> {''collection_value_min'', ''collection_value_median'', ''collection_value_max''}"
    and "\<exists>e. identity_call ev = Inl e \<or> value_call ev = Inl e"
  shows "d' k = d k \<or> d' k = Some (PStr (ustr ''0.00''))"
  using assms populate_identity_keeps [of _ d _ _ k]
  by (auto simp: fetch_initial_data_def fetch_collection_value_def
      split: sum.splits prod.splits option.splits if_splits)

lemma fetch_initial_data_identity_failed:
  assumes "identity_call ev = Inl e"
  shows "fetch_initial_data ev d = (d, None, Some e)"
  using assms by (simp add: fetch_initial_data_def)

lemma new_sensors_no_key_error:
  assumes "d ''currency_symbol'' \<noteq> None"
  shows "new_sensors d nm ds \<noteq> Inl e"
  using assms
  by (induction ds) (auto simp: new_sensor_def dict_item_def Let_def split: sum.splits)

lemma format_counts_step_escapes:
  assumes "format_counts_step i d = Inl e" "d ''collection_count'' = Some (PInt n)"
  shows "e = BaseExit"
  using assms
  by (auto simp: format_counts_step_def dict_item_def split: sum.splits if_splits)

lemma fetch_initial_data_count_int:
  assumes "fetch_initial_data ev initial_data = (d, i, r)"
  shows "\<exists>n. d ''collection_count'' = Some (PInt n)"
  using fetch_initial_data_count [OF assms] by (auto simp: initial_data_simps)

text \<open>
  Claim C8. No \<open>KeyError\<close> leaves setup, and in every snapshot that setup hands to the
  sensors the three valuation entries and the currency entry of \<open>discogs_data\<close> are
  present. When the identity request or the valuation request (its JSON parse included)
  raises without aborting setup, the three valuation entries are the default \<open>"0.00"\<close>;
  when the identity request raises, the currency entry is the default \<open>"$"\<close>.
\<close>

theorem value_fields_always_present:
  "setup_platform ev cfg \<noteq> Escaped KeyError
   \<and> (\<forall>p. setup_platform ev cfg = Added p \<longrightarrow>
         (\<exists>mn md mx cur.
             discogs_data p ''collection_value_min'' = Some mn
           \<and> discogs_data p ''collection_value_median'' = Some md
           \<and> discogs_data p ''collection_value_max'' = Some mx
           \<and> discogs_data p ''currency_symbol'' = Some cur)
       \<and> ((\<exists>e. identity_call ev = Inl e \<or> value_call ev = Inl e) \<longrightarrow>
             discogs_data p ''collection_value_min'' = Some (PStr (ustr ''0.00''))
           \<and> discogs_data p ''collection_value_median'' = Some (PStr (ustr ''0.00''))
           \<and> discogs_data p ''collection_value_max'' = Some (PStr (ustr ''0.00'')))
       \<and> ((\<exists>e. identity_call ev = Inl e) \<longrightarrow>
             discogs_data p ''currency_symbol'' = Some (PStr (ustr ''$''))))"
proof -
  obtain d i r where f: "fetch_initial_data ev initial_data = (d, i, r)"
    by (cases "fetch_initial_data ev initial_data")
  have dom: "d k \<noteq> None" if "initial_data k \<noteq> None" for k
    using fetch_initial_data_dom [OF f that] .
  have cur: "d ''currency_symbol'' \<noteq> None"
    by (rule dom) (simp add: initial_data_simps)
  obtain n where n: "d ''collection_count'' = Some (PInt n)"
    using fetch_initial_data_count_int [OF f] by blast
  have keep: "d' k = d k"
    if "format_counts_step i d = Inr d'" "k \<noteq> SENSOR_VINYL_COUNT_TYPE" "k \<noteq> SENSOR_CD_COUNT_TYPE"
    for d' k
    using that by (rule format_counts_step_keeps)
  have esc: "setup_platform ev cfg \<noteq> Escaped KeyError"
  proof
    assume a: "setup_platform ev cfg = Escaped KeyError"
    show False
    proof (cases "format_counts_step i d")
      case (Inl e)
      then have "e = BaseExit" using n by (rule format_counts_step_escapes)
      with a f Inl show False by (auto simp: setup_platform_def split: if_splits)
    next
      case (Inr d')
      have "d' ''currency_symbol'' \<noteq> None"
        using keep [OF Inr, of "''currency_symbol''"] cur by (simp add: sensor_key_defs)
      then show False
        using a f Inr new_sensors_no_key_error [of d']
        by (auto simp: setup_platform_def split: if_splits sum.splits)
    qed
  qed
  have added: "\<exists>d'. format_counts_step i d = Inr d' \<and> discogs_data p = d'"
    if "setup_platform ev cfg = Added p" for p
    using that f by (auto simp: setup_platform_def split: if_splits sum.splits)
  have same: "discogs_data p k = d k"
    if "setup_platform ev cfg = Added p" "k \<noteq> SENSOR_VINYL_COUNT_TYPE" "k \<noteq> SENSOR_CD_COUNT_TYPE"
    for p k
  proof -
    from added [OF that(1)] obtain d' where "format_counts_step i d = Inr d'" "discogs_data p = d'"
      by blast
    then show ?thesis using keep [of d' k] that(2,3) by simp
  qed
  have d0: "d = initial_data" if "identity_call ev = Inl e" for e
    using f fetch_initial_data_identity_failed [OF that, of initial_data] by simp
  have vmin: "d ''collection_value_min'' = Some (PStr (ustr ''0.00''))"
    and vmed: "d ''collection_value_median'' = Some (PStr (ustr ''0.00''))"
    and vmax: "d ''collection_value_max'' = Some (PStr (ustr ''0.00''))"
    if "\<exists>e. identity_call ev = Inl e \<or> value_call ev = Inl e"
    using fetch_initial_data_values [OF f _ that, of "''collection_value_min''"]
      fetch_initial_data_values [OF f _ that, of "''collection_value_median''"]
      fetch_initial_data_values [OF f _ that, of "''collection_value_max''"]
    by (simp_all add: initial_data_simps)
  have part: "(\<exists>mn md mx cur.
             discogs_data p ''collection_value_min'' = Some mn
           \<and> discogs_data p ''collection_value_median'' = Some md
           \<and> discogs_data p ''collection_value_max'' = Some mx
           \<and> discogs_data p ''currency_symbol'' = Some cur)
       \<and> ((\<exists>e. identity_call ev = Inl e \<or> value_call ev = Inl e) \<longrightarrow>
             discogs_data p ''collection_value_min'' = Some (PStr (ustr ''0.00''))
           \<and> discogs_data p ''collection_value_median'' = Some (PStr (ustr ''0.00''))
           \<and> discogs_data p ''collection_value_max'' = Some (PStr (ustr ''0.00'')))
       \<and> ((\<exists>e. identity_call ev = Inl e) \<longrightarrow>
             discogs_data p ''currency_symbol'' = Some (PStr (ustr ''$'')))"
    if a: "setup_platform ev cfg = Added p" for p
  proof -
    have e1: "discogs_data p ''collection_value_min'' = d ''collection_value_min''"
      and e2: "discogs_data p ''collection_value_median'' = d ''collection_value_median''"
      and e3: "discogs_data p ''collection_value_max'' = d ''collection_value_max''"
      and e4: "discogs_data p ''currency_symbol'' = d ''currency_symbol''"
      by (rule same [OF a]; simp add: sensor_key_defs)+
    have p1: "\<exists>v. d ''collection_value_min'' = Some v"
      and p2: "\<exists>v. d ''collection_value_median'' = Some v"
      and p3: "\<exists>v. d ''collection_value_max'' = Some v"
      and p4: "\<exists>v. d ''currency_symbol'' = Some v"
      using dom [of "''collection_value_min''"] dom [of "''collection_value_median''"]
        dom [of "''collection_value_max''"] dom [of "''currency_symbol''"]
      by (simp_all add: initial_data_simps)
    have dollar: "(\<exists>e. identity_call ev = Inl e) \<longrightarrow>
        d ''currency_symbol'' = Some (PStr (ustr ''$''))"
      using d0 by (auto simp: initial_data_simps)
    show ?thesis
      unfolding e1 e2 e3 e4 using p1 p2 p3 p4 vmin vmed vmax dollar by blast
  qed
  show ?thesis using esc part by blast
qed

theorem value_fields_always_present_witness:
  "(case setup_platform (example_env\<lparr>value_call := Inl JSONDecodeError\<rparr>) example_config of
      Added p \<Rightarrow>
        discogs_data p ''collection_value_min'' = Some (PStr (ustr ''0.00''))
        \<and> discogs_data p ''collection_value_median'' = Some (PStr (ustr ''0.00''))
        \<and> discogs_data p ''collection_value_max'' = Some (PStr (ustr ''0.00''))
        \<and> discogs_data p ''currency_symbol'' = Some (PStr (ustr ''EUR''))
    | _ \<Rightarrow> False)
   \<and> (case setup_platform (example_env\<lparr>identity_call := Inl OtherException\<rparr>) example_config of
      Added p \<Rightarrow>
        discogs_data p ''collection_value_min'' = Some (PStr (ustr ''0.00''))
        \<and> discogs_data p ''collection_value_median'' = Some (PStr (ustr ''0.00''))
        \<and> discogs_data p ''collection_value_max'' = Some (PStr (ustr ''0.00''))
        \<and> discogs_data p ''currency_symbol'' = Some (PStr (ustr ''$''))
    | _ \<Rightarrow> False)"
  using value_fields_always_present
      [of "example_env\<lparr>value_call := Inl JSONDecodeError\<rparr>" example_config]
    value_fields_always_present
      [of "example_env\<lparr>identity_call := Inl OtherException\<rparr>" example_config]
  by (simp add: setup_eval_defs)

lemma resolve_currency_priority:
  assumes "\<forall>e. curr_abbr idn = Inl e \<longrightarrow> e = AttributeError"
    and "\<forall>e. data idn = Inl e \<longrightarrow> e = AttributeError"
  shows "resolve_currency idn (PStr (ustr ''$'')) = Inr (currency_by_priority idn)"
  using assms
  by (auto simp: resolve_currency_def data_curr_abbr_def currency_by_priority_def
      attribute_value_def data_value_def split: sum.splits pyjson.splits option.splits)

text \<open>
  Claim C7, as stated, fails: an identity that has the attribute \<open>curr_abbr\<close> with the empty
  string as value, and \<open>EUR\<close> under the key of its raw data map. Resolution by presence
  gives the empty string; the snapshot holds \<open>EUR\<close>, because the source tests the truth
  value of the attribute, not only its presence.
\<close>

theorem currency_presence_counterexample:
  "curr_abbr (example_identity\<lparr>curr_abbr := Inr (PStr [])\<rparr>) = Inr (PStr [])
   \<and> currency_by_presence (example_identity\<lparr>curr_abbr := Inr (PStr [])\<rparr>) = PStr []
   \<and> (case setup_platform
             (example_env\<lparr>identity_call := Inr (example_identity\<lparr>curr_abbr := Inr (PStr [])\<rparr>)\<rparr>)
             example_config of
        Added p \<Rightarrow> discogs_data p ''currency_symbol'' = Some (PStr (ustr ''EUR''))
      | _ \<Rightarrow> False)
   \<and> PStr (ustr ''EUR'') \<noteq> PStr []"
  by (simp add: currency_by_presence_def setup_eval_defs)

text \<open>
  Claim C7, amended. For every identity whose attributes are read without an exception, the
  currency symbol of the snapshot is: the attribute \<open>curr_abbr\<close> when the identity has it
  and its value is true (not empty), else the value under \<open>curr_abbr\<close> in the raw data map
  when that is a dict holding the key with a true value, else \<open>"$"\<close>.
\<close>

theorem currency_resolved_by_priority:
  assumes "identity_call ev = Inr idn"
    and "id_name idn = Inr nm" "username idn = Inr un" "collection_folders idn = Inr fs"
    and "num_collection idn = Inr nc" "num_wantlist idn = Inr nw"
    and "\<forall>e. curr_abbr idn = Inl e \<longrightarrow> e = AttributeError"
    and "\<forall>e. data idn = Inl e \<longrightarrow> e = AttributeError"
    and "setup_platform ev cfg = Added p"
  shows "discogs_data p ''currency_symbol'' = Some (currency_by_priority idn)"
proof -
  obtain d i r where f: "fetch_initial_data ev initial_data = (d, i, r)"
    by (cases "fetch_initial_data ev initial_data")
  obtain d1 r1 where pi: "populate_identity idn initial_data = (d1, r1)"
    by (cases "populate_identity idn initial_data")
  have rc: "resolve_currency idn (PStr (ustr ''$'')) = Inr (currency_by_priority idn)"
    using assms(7,8) by (rule resolve_currency_priority)
  have r1: "r1 = None"
    using pi assms(2-6) rc by (auto simp: populate_identity_def Let_def)
  have c1: "d1 ''currency_symbol'' = Some (currency_by_priority idn)"
    using populate_identity_currency [OF pi] r1 rc by simp
  have "d ''currency_symbol'' = d1 ''currency_symbol''"
    using f assms(1) pi r1
    by (auto simp: fetch_initial_data_def split: sum.splits prod.splits)
  moreover have "\<exists>d'. format_counts_step i d = Inr d' \<and> discogs_data p = d'"
    using assms(9) f by (auto simp: setup_platform_def split: if_splits sum.splits)
  then have "discogs_data p ''currency_symbol'' = d ''currency_symbol''"
    using format_counts_step_keeps [of i d _ "''currency_symbol''"]
    by (auto simp: sensor_key_defs)
  ultimately show ?thesis using c1 by simp
qed

theorem currency_resolved_by_priority_witness:
  "(case setup_platform
           (example_env\<lparr>identity_call := Inr (example_identity\<lparr>curr_abbr := Inr (PStr [])\<rparr>)\<rparr>)
           example_config of
      Added p \<Rightarrow>
        discogs_data p ''currency_symbol'' =
          Some (currency_by_priority (example_identity\<lparr>curr_abbr := Inr (PStr [])\<rparr>))
    | _ \<Rightarrow> False)
   \<and> currency_by_priority (example_identity\<lparr>curr_abbr := Inr (PStr [])\<rparr>) = PStr (ustr ''EUR'')"
proof -
  let ?I = "example_identity\<lparr>curr_abbr := Inr (PStr [])\<rparr>"
  let ?E = "example_env\<lparr>identity_call := Inr ?I\<rparr>"
  obtain p where p: "setup_platform ?E example_config = Added p"
    by (cases "setup_platform ?E example_config") (simp_all add: setup_eval_defs)
  have "discogs_data p ''currency_symbol'' = Some (currency_by_priority ?I)"
    using currency_resolved_by_priority [of ?E ?I "ustr ''Andreas''" "ustr ''andreasc1''"
        "[example_folder]" 4 2 example_config p] p
    by (simp add: example_identity_def)
  moreover have "currency_by_priority ?I = PStr (ustr ''EUR'')"
    by (simp add: currency_by_priority_def attribute_value_def data_value_def
        example_identity_def ustr_def)
  ultimately show ?thesis using p by simp
qed

section \<open>The random record\<close>

lemma update_random_key:
  assumes "key (entity_description s) = SENSOR_RANDOM_RECORD_TYPE"
  shows "update randrange d s g =
    (case get_random_record randrange d s g of
       (Inl e, s', g') \<Rightarrow> (Inl e, g')
     | (Inr v, s', g') \<Rightarrow> (Inr (s'\<lparr>attr_native_value := v\<rparr>), g'))"
  using assms by (simp add: update_def value_keys_def sensor_key_defs)

text \<open>
  Claim C9. One poll of the random record sensor. If \<open>discogs_data\<close> holds a first folder
  whose \<open>count\<close> is positive, the sensor draws one index with \<open>random.randrange(count)\<close>,
  which is how Python draws uniformly from \<open>[0, count)\<close>; when the release at that index
  is fetched, its raw attributes become the cached \<open>attrs\<close> (what
  \<open>extra_state_attributes\<close> reads) and the value is its label. If the folder list is
  empty or the count of the first folder is not positive, the value is \<open>None\<close>, nothing is
  drawn and nothing is cached: \<open>attrs\<close> stays as it was, empty for a sensor that never
  fetched a record.
\<close>

theorem random_record_poll:
  assumes "key (entity_description s) = SENSOR_RANDOM_RECORD_TYPE"
  shows "(\<forall>f fs i g' r.
            d ''folders'' = Some (PFolders (f # fs)) \<and> 0 < count f
            \<and> randrange (nat (count f)) g = (i, g')
            \<and> i < length (releases f) \<and> releases f ! i = Inr r \<longrightarrow>
            update randrange d s g =
              (Inr (s\<lparr>attrs := Some r, attr_native_value := PStr (record_label r)\<rparr>), g'))
       \<and> (\<forall>f fs.
            d ''folders'' = Some (PFolders [])
            \<or> (d ''folders'' = Some (PFolders (f # fs)) \<and> count f \<le> 0) \<longrightarrow>
            update randrange d s g = (Inr (s\<lparr>attr_native_value := PNone\<rparr>), g))"
  by (auto simp: update_random_key [OF assms] get_random_record_def dict_item_def
      lookup_release_def)

theorem random_record_poll_witness:
  "update (\<lambda>n g. (g mod n, Suc g)) (initial_data(''folders'' \<mapsto> PFolders [example_folder]))
      random_sensor 6 =
     (Inr (random_sensor\<lparr>attrs := Some (release_with_format ''vinyl''),
        attr_native_value := PStr (ustr ''Unknown Artist - Unknown Title'')\<rparr>), 7)
   \<and> update (\<lambda>n g. (g mod n, Suc g)) initial_data random_sensor 6 =
     (Inr (random_sensor\<lparr>attr_native_value := PNone\<rparr>), 6)"
  using random_record_poll [of random_sensor "initial_data(''folders'' \<mapsto> PFolders [example_folder])"
      "\<lambda>n g. (g mod n, Suc g)" 6]
    random_record_poll [of random_sensor initial_data "\<lambda>n g. (g mod n, Suc g)" 6]
  by (simp add: random_sensor_def example_folder_def initial_data_def sensor_key_defs
      record_label_def release_with_format_def ustr_def)

end
